theory Spec2Isabelle
  imports Complex_Main
begin

section \<open>Data model\<close>

text \<open>
  The program keeps one \<open>Atom\<close> structure. Its \<open>std::vector\<close> members and the
  18-element \<open>box\<close> block are modelled as stores from index to value; \<open>number\<close>
  is the length of every per-atom vector and \<open>number * MN\<close> the length of \<open>NL\<close>
  (as \<open>allocateMemory\<close> sizes them). \<open>double\<close> is modelled by \<open>real\<close>, so the
  arithmetic is exact; the rounding of the \<open>float\<close> that \<open>getArea\<close> returns is not
  modelled either, and an \<open>int\<close> has no upper bound. \<open>int\<close> indices and counts that
  are never negative are \<open>nat\<close>, the cell indices of \<open>findNeighborON1\<close>, which can be
  negative, are \<open>int\<close>.

  A store has a value at every index. A write to \<open>NL\<close> at a slot at or beyond
  \<open>number * MN\<close> is a write past the end of the vector, with no defined behaviour in
  C++; the model performs it in the store and goes on, so that a statement can speak
  about it. What the model says of a run after such a write is what the program does if
  the write has no other effect; \<open>stores_end\<close> tells whether a run has made one.

  Division in HOL is total, with \<open>x / 0 = 0\<close>, where a \<open>double\<close> division gives an
  infinity or NaN. The theorems below either exclude a zero divisor by a hypothesis
  (a non-degenerate box) or hold whatever value the quotient has; where the quotient is
  the subject (\<open>bp\<close> in \<open>find_b_and_bp\<close>) a zero divisor is a case of its own.
\<close>

record Atom =
  number :: nat
  numUpdates :: nat
  MN :: nat
  cutoffNeighbor :: real
  box :: "nat \<Rightarrow> real"
  NN :: "nat \<Rightarrow> nat"
  NL :: "nat \<Rightarrow> nat"
  mass :: "nat \<Rightarrow> real"
  x0 :: "nat \<Rightarrow> real"
  y0 :: "nat \<Rightarrow> real"
  z0 :: "nat \<Rightarrow> real"
  x :: "nat \<Rightarrow> real"
  y :: "nat \<Rightarrow> real"
  z :: "nat \<Rightarrow> real"
  vx :: "nat \<Rightarrow> real"
  vy :: "nat \<Rightarrow> real"
  vz :: "nat \<Rightarrow> real"
  fx :: "nat \<Rightarrow> real"
  fy :: "nat \<Rightarrow> real"
  fz :: "nat \<Rightarrow> real"
  pe :: "nat \<Rightarrow> real"

section \<open>Box geometry\<close>

definition getDet :: "(nat \<Rightarrow> real) \<Rightarrow> real" where
  "getDet b =
     b 0 * (b 4 * b 8 - b 5 * b 7) +
     b 1 * (b 5 * b 6 - b 3 * b 8) +
     b 2 * (b 3 * b 7 - b 4 * b 6)"

definition getInverseBox :: "(nat \<Rightarrow> real) \<Rightarrow> (nat \<Rightarrow> real)" where
  "getInverseBox b0 =
     (let b1 = b0(9 := b0 4 * b0 8 - b0 5 * b0 7);
          b2 = b1(10 := b1 2 * b1 7 - b1 1 * b1 8);
          b3 = b2(11 := b2 1 * b2 5 - b2 2 * b2 4);
          b4 = b3(12 := b3 5 * b3 6 - b3 3 * b3 8);
          b5 = b4(13 := b4 0 * b4 8 - b4 2 * b4 6);
          b6 = b5(14 := b5 2 * b5 3 - b5 0 * b5 5);
          b7 = b6(15 := b6 3 * b6 7 - b6 4 * b6 6);
          b8 = b7(16 := b7 1 * b7 6 - b7 0 * b7 7);
          b9 = b8(17 := b8 0 * b8 4 - b8 1 * b8 3);
          det = getDet b9
      in fold (\<lambda>n b. b(n := b n / det)) [9 ..< 18] b9)"

text \<open>The two changes of coordinates that \<open>applyMic\<close>, \<open>applyPbc\<close> and \<open>findCell\<close>
  write out inline: Cartesian to fractional with entries 9..17, and back with 0..8.\<close>

definition fractional :: "(nat \<Rightarrow> real) \<Rightarrow> real \<times> real \<times> real \<Rightarrow> real \<times> real \<times> real" where
  "fractional b r = (case r of (rx, ry, rz) \<Rightarrow>
     (b 9 * rx + b 10 * ry + b 11 * rz,
      b 12 * rx + b 13 * ry + b 14 * rz,
      b 15 * rx + b 16 * ry + b 17 * rz))"

definition cartesian :: "(nat \<Rightarrow> real) \<Rightarrow> real \<times> real \<times> real \<Rightarrow> real \<times> real \<times> real" where
  "cartesian b s = (case s of (sx, sy, sz) \<Rightarrow>
     (b 0 * sx + b 1 * sy + b 2 * sz,
      b 3 * sx + b 4 * sy + b 5 * sz,
      b 6 * sx + b 7 * sy + b 8 * sz))"

definition applyMicOne :: "real \<Rightarrow> real" where
  "applyMicOne x12 =
     (if x12 < - 0.5 then x12 + 1.0 else if x12 > 0.5 then x12 - 1.0 else x12)"

definition applyMic :: "(nat \<Rightarrow> real) \<Rightarrow> real \<times> real \<times> real \<Rightarrow> real \<times> real \<times> real" where
  "applyMic b r = (case r of (x12, y12, z12) \<Rightarrow>
     (let sx12 = b 9 * x12 + b 10 * y12 + b 11 * z12;
          sy12 = b 12 * x12 + b 13 * y12 + b 14 * z12;
          sz12 = b 15 * x12 + b 16 * y12 + b 17 * z12;
          sx12 = applyMicOne sx12;
          sy12 = applyMicOne sy12;
          sz12 = applyMicOne sz12
      in (b 0 * sx12 + b 1 * sy12 + b 2 * sz12,
          b 3 * sx12 + b 4 * sy12 + b 5 * sz12,
          b 6 * sx12 + b 7 * sy12 + b 8 * sz12)))"

definition applyPbcOne :: "real \<Rightarrow> real" where
  "applyPbcOne sx = (if sx < 0.0 then sx + 1.0 else if sx > 1.0 then sx - 1.0 else sx)"

text \<open>One iteration of the loop of \<open>applyPbc\<close>, for atom \<open>n\<close>.\<close>

definition applyPbc_atom :: "nat \<Rightarrow> Atom \<Rightarrow> Atom" where
  "applyPbc_atom n atom =
     (let b = box atom;
          sx = b 9 * x atom n + b 10 * y atom n + b 11 * z atom n;
          sy = b 12 * x atom n + b 13 * y atom n + b 14 * z atom n;
          sz = b 15 * x atom n + b 16 * y atom n + b 17 * z atom n;
          sx = applyPbcOne sx;
          sy = applyPbcOne sy;
          sz = applyPbcOne sz
      in atom\<lparr> x := (x atom)(n := b 0 * sx + b 1 * sy + b 2 * sz),
               y := (y atom)(n := b 3 * sx + b 4 * sy + b 5 * sz),
               z := (z atom)(n := b 6 * sx + b 7 * sy + b 8 * sz) \<rparr>)"

definition applyPbc :: "Atom \<Rightarrow> Atom" where
  "applyPbc atom = fold applyPbc_atom [0 ..< number atom] atom"

text \<open>A cubic box of side \<open>l\<close> together with its inverse, as \<open>initializePosition\<close> and
  \<open>getInverseBox\<close> set it up.\<close>

definition cube :: "real \<Rightarrow> nat \<Rightarrow> real" where
  "cube l n = (if n = 0 \<or> n = 4 \<or> n = 8 then l
               else if n = 9 \<or> n = 13 \<or> n = 17 then 1 / l else 0)"

section \<open>Neighbour-list maintenance\<close>

text \<open>The loop of \<open>checkIfNeedUpdate\<close> over the atoms still to be looked at; the
  \<open>break\<close> is the branch that does not recurse.\<close>

fun checkIfNeedUpdate_from :: "Atom \<Rightarrow> nat list \<Rightarrow> bool" where
  "checkIfNeedUpdate_from atom [] = False"
| "checkIfNeedUpdate_from atom (n # ns) =
     (let dx = x atom n - x0 atom n;
          dy = y atom n - y0 atom n;
          dz = z atom n - z0 atom n
      in if dx * dx + dy * dy + dz * dz > 0.25 then True
         else checkIfNeedUpdate_from atom ns)"

definition checkIfNeedUpdate :: "Atom \<Rightarrow> bool" where
  "checkIfNeedUpdate atom = checkIfNeedUpdate_from atom [0 ..< number atom]"

definition updateXyz0 :: "Atom \<Rightarrow> Atom" where
  "updateXyz0 atom =
     fold (\<lambda>n a. a\<lparr> x0 := (x0 a)(n := x a n), y0 := (y0 a)(n := y a n),
                     z0 := (z0 a)(n := z a n) \<rparr>) [0 ..< number atom] atom"

section \<open>Neighbour-list builders\<close>

text \<open>
  \<open>exit(1)\<close> after the capacity message is the error \<open>NeighborOverflow i MN\<close> (the
  two numbers the message prints). An access outside one of the local cell vectors of
  \<open>findNeighborON1\<close> has no defined behaviour in C++ and ends the model run with
  \<open>OutOfBounds\<close>. An error carries the state of the \<open>Atom\<close> structure at the moment
  the run ends.
\<close>

datatype fatal = NeighborOverflow nat nat | OutOfBounds

type_synonym outcome = "(fatal \<times> Atom) + Atom"

text \<open>A \<open>for\<close> loop whose body may end the run.\<close>

fun for_each :: "('a \<Rightarrow> Atom \<Rightarrow> outcome) \<Rightarrow> 'a list \<Rightarrow> Atom \<Rightarrow> outcome" where
  "for_each body [] atom = Inr atom"
| "for_each body (v # vs) atom =
     (case body v atom of Inl e \<Rightarrow> Inl e | Inr atom' \<Rightarrow> for_each body vs atom')"

text \<open>\<open>std::fill(v.begin(), v.end(), 0)\<close> on a per-atom vector.\<close>

definition fill_zero :: "nat \<Rightarrow> (nat \<Rightarrow> nat) \<Rightarrow> (nat \<Rightarrow> nat)" where
  "fill_zero len v = (\<lambda>n. if n < len then 0 else v n)"

text \<open>\<open>atom.NL[i * atom.MN + atom.NN[i]++] = j\<close>: the slot is computed from the old
  count, which is then incremented. The store is written whatever the slot is.\<close>

definition push_neighbor :: "nat \<Rightarrow> nat \<Rightarrow> Atom \<Rightarrow> Atom" where
  "push_neighbor i j atom =
     atom\<lparr> NL := (NL atom)(i * MN atom + NN atom i := j),
            NN := (NN atom)(i := NN atom i + 1) \<rparr>"

text \<open>The body of \<open>if (distanceSquare < cutoffSquare)\<close>, the same statements in both
  builders: two stores, then the two capacity checks.\<close>

definition record_pair :: "nat \<Rightarrow> nat \<Rightarrow> Atom \<Rightarrow> outcome" where
  "record_pair i j atom =
     (let a1 = push_neighbor i j atom;
          a2 = push_neighbor j i a1
      in if NN a2 i > MN a2 then Inl (NeighborOverflow i (MN a2), a2)
         else if NN a2 j > MN a2 then Inl (NeighborOverflow j (MN a2), a2)
         else Inr a2)"

text \<open>The squared length of the minimum-image displacement from atom \<open>i\<close> to atom
  \<open>j\<close>, as every distance computation of the program writes it out.\<close>

definition micDistanceSquare :: "Atom \<Rightarrow> nat \<Rightarrow> nat \<Rightarrow> real" where
  "micDistanceSquare atom i j =
     (case applyMic (box atom) (x atom j - x atom i, y atom j - y atom i, z atom j - z atom i)
      of (xij, yij, zij) \<Rightarrow> xij * xij + yij * yij + zij * zij)"

definition visit_pair :: "nat \<Rightarrow> nat \<Rightarrow> Atom \<Rightarrow> outcome" where
  "visit_pair i j atom =
     (let cutoffSquare = cutoffNeighbor atom * cutoffNeighbor atom;
          distanceSquare = micDistanceSquare atom i j
      in if distanceSquare < cutoffSquare then record_pair i j atom else Inr atom)"

definition findNeighborON2 :: "Atom \<Rightarrow> outcome" where
  "findNeighborON2 atom =
     for_each (\<lambda>i. for_each (\<lambda>j. visit_pair i j) [i + 1 ..< number atom])
       [0 ..< number atom - 1]
       (atom\<lparr> NN := fill_zero (number atom) (NN atom) \<rparr>)"

subsection \<open>The cell-linked builder\<close>

definition getArea :: "real \<times> real \<times> real \<Rightarrow> real \<times> real \<times> real \<Rightarrow> real" where
  "getArea a b = (case (a, b) of ((a0, a1, a2), (b0, b1, b2)) \<Rightarrow>
     (let s1 = a1 * b2 - a2 * b1;
          s2 = a2 * b0 - a0 * b2;
          s3 = a0 * b1 - a1 * b0
      in sqrt (s1 * s1 + s2 * s2 + s3 * s3)))"

text \<open>The conversion of a \<open>double\<close> to \<open>int\<close>: the fraction is dropped.\<close>

definition toInt :: "real \<Rightarrow> int" where
  "toInt d = (if d < 0 then \<lceil>d\<rceil> else \<lfloor>d\<rfloor>)"

text \<open>\<open>getThickness\<close> calls \<open>abs\<close> unqualified, with \<open><cmath>\<close> as the only header
  that declares it. Compiled with \<open>g++\<close>, as the head of the file prescribes, the call is
  to \<open>int abs(int)\<close> of the C library: the determinant is converted to \<open>int\<close> first
  and the volume is a whole number.\<close>

definition getThickness :: "Atom \<Rightarrow> real \<times> real \<times> real" where
  "getThickness atom =
     (let volume = real_of_int \<bar>toInt (getDet (box atom))\<bar>;
          a = (box atom 0, box atom 3, box atom 6);
          b = (box atom 1, box atom 4, box atom 7);
          c = (box atom 2, box atom 5, box atom 8)
      in (volume / getArea b c, volume / getArea c a, volume / getArea a b))"

text \<open>The two corrections \<open>findCell\<close> applies to a cell index along one axis.\<close>

definition wrapCell :: "int \<Rightarrow> int \<Rightarrow> int" where
  "wrapCell c n = (let c = (if c < 0 then c + n else c) in if c \<ge> n then c - n else c)"

definition findCell ::
  "(nat \<Rightarrow> real) \<Rightarrow> real \<times> real \<times> real \<Rightarrow> real \<times> real \<times> real \<Rightarrow> real \<Rightarrow> int \<times> int \<times> int
     \<Rightarrow> int \<times> int \<times> int \<times> int" where
  "findCell b thickness r cutoffInverse numCells =
     (case (thickness, r, numCells) of ((t0, t1, t2), (r0, r1, r2), (nc0, nc1, nc2)) \<Rightarrow>
       (let s0 = b 9 * r0 + b 10 * r1 + b 11 * r2;
            s1 = b 12 * r0 + b 13 * r1 + b 14 * r2;
            s2 = b 15 * r0 + b 16 * r1 + b 17 * r2;
            c0 = wrapCell \<lfloor>s0 * t0 * cutoffInverse\<rfloor> nc0;
            c1 = wrapCell \<lfloor>s1 * t1 * cutoffInverse\<rfloor> nc1;
            c2 = wrapCell \<lfloor>s2 * t2 * cutoffInverse\<rfloor> nc2
        in (c0, c1, c2, c0 + nc0 * (c1 + nc1 * c2))))"

text \<open>A read of a local vector at an \<open>int\<close> index: \<open>None\<close> outside the vector.\<close>

definition read_at :: "'a list \<Rightarrow> int \<Rightarrow> 'a option" where
  "read_at v i = (if 0 \<le> i \<and> i < int (length v) then Some (v ! nat i) else None)"

text \<open>First pass: \<open>++cellCount[cell[3]]\<close> for every atom; \<open>cellOf n\<close> is \<open>cell[3]\<close>
  of atom \<open>n\<close>.\<close>

fun countCells :: "(nat \<Rightarrow> int) \<Rightarrow> nat list \<Rightarrow> nat list \<Rightarrow> nat list option" where
  "countCells cellOf [] cellCount = Some cellCount"
| "countCells cellOf (n # ns) cellCount =
     (case read_at cellCount (cellOf n) of
        None \<Rightarrow> None
      | Some c \<Rightarrow> countCells cellOf ns (cellCount[nat (cellOf n) := c + 1]))"

definition sumCells :: "nat list \<Rightarrow> nat list" where
  "sumCells cellCount =
     fold (\<lambda>i cellCountSum. cellCountSum[i := cellCountSum ! (i - 1) + cellCount ! (i - 1)])
       [1 ..< length cellCount] (replicate (length cellCount) 0)"

text \<open>Second pass: the atoms are scattered into \<open>cellContents\<close>, cell by cell.\<close>

fun scatterCells ::
  "(nat \<Rightarrow> int) \<Rightarrow> nat list \<Rightarrow> nat list \<Rightarrow> nat list \<times> nat list \<Rightarrow> (nat list \<times> nat list) option" where
  "scatterCells cellOf cellCountSum [] (cellCount, cellContents) = Some (cellCount, cellContents)"
| "scatterCells cellOf cellCountSum (n # ns) (cellCount, cellContents) =
     (case (read_at cellCountSum (cellOf n), read_at cellCount (cellOf n)) of
        (Some s, Some c) \<Rightarrow>
          if s + c < length cellContents
          then scatterCells cellOf cellCountSum ns
                 (cellCount[nat (cellOf n) := c + 1], cellContents[s + c := n])
          else None
      | _ \<Rightarrow> None)"

definition neighborCellOf ::
  "int \<times> int \<times> int \<times> int \<Rightarrow> int \<times> int \<times> int \<times> int \<Rightarrow> int \<Rightarrow> int \<Rightarrow> int \<Rightarrow> int" where
  "neighborCellOf cell numCells k j i =
     (case (cell, numCells) of ((c0, c1, c2, c3), (nc0, nc1, nc2, nc3)) \<Rightarrow>
       (let nb = c3 + (k * nc1 + j) * nc0 + i;
            nb = (if c0 + i < 0 then nb + nc0 else nb);
            nb = (if c0 + i \<ge> nc0 then nb - nc0 else nb);
            nb = (if c1 + j < 0 then nb + nc1 * nc0 else nb);
            nb = (if c1 + j \<ge> nc1 then nb - nc1 * nc0 else nb);
            nb = (if c2 + k < 0 then nb + nc3 else nb);
            nb = (if c2 + k \<ge> nc2 then nb - nc3 else nb)
        in nb))"

text \<open>The loop over the atoms \<open>m\<close> of one neighbouring cell.\<close>

definition scanCell :: "nat list \<Rightarrow> nat list \<Rightarrow> nat list \<Rightarrow> nat \<Rightarrow> int \<Rightarrow> Atom \<Rightarrow> outcome" where
  "scanCell cellCount cellCountSum cellContents n1 neighborCell atom =
     (case read_at cellCount neighborCell of
        None \<Rightarrow> Inl (OutOfBounds, atom)
      | Some cnt \<Rightarrow>
          for_each (\<lambda>m a.
              case read_at cellCountSum neighborCell of
                None \<Rightarrow> Inl (OutOfBounds, a)
              | Some s \<Rightarrow>
                 (case read_at cellContents (int (s + m)) of
                    None \<Rightarrow> Inl (OutOfBounds, a)
                  | Some n2 \<Rightarrow> if n1 < n2 then visit_pair n1 n2 a else Inr a))
            [0 ..< cnt] atom)"

definition findNeighborON1 :: "Atom \<Rightarrow> outcome" where
  "findNeighborON1 atom =
     (let cutoffInverse = 1 / cutoffNeighbor atom;
          thickness = getThickness atom;
          nc0 = \<lfloor>fst thickness * cutoffInverse\<rfloor>;
          nc1 = \<lfloor>fst (snd thickness) * cutoffInverse\<rfloor>;
          nc2 = \<lfloor>snd (snd thickness) * cutoffInverse\<rfloor>;
          nc3 = nc0 * nc1 * nc2;
          cell = (\<lambda>n. findCell (box atom) thickness (x atom n, y atom n, z atom n)
                         cutoffInverse (nc0, nc1, nc2));
          cellOf = (\<lambda>n. snd (snd (snd (cell n))))
      in case countCells cellOf [0 ..< number atom] (replicate (nat nc3) 0) of
           None \<Rightarrow> Inl (OutOfBounds, atom)
         | Some counted \<Rightarrow>
            (let cellCountSum = sumCells counted
             in case scatterCells cellOf cellCountSum [0 ..< number atom]
                       (replicate (nat nc3) 0, replicate (number atom) 0) of
                  None \<Rightarrow> Inl (OutOfBounds, atom)
                | Some (cellCount, cellContents) \<Rightarrow>
                    for_each (\<lambda>n1.
                      for_each (\<lambda>k.
                        for_each (\<lambda>j.
                          for_each (\<lambda>i.
                            scanCell cellCount cellCountSum cellContents n1
                              (neighborCellOf (cell n1) (nc0, nc1, nc2, nc3) k j i))
                          [- 1, 0, 1])
                        [- 1, 0, 1])
                      [- 1, 0, 1])
                    [0 ..< number atom]
                    (atom\<lparr> NN := fill_zero (number atom) (NN atom) \<rparr>)))"

text \<open>\<open>findNeighbor\<close>; the flag stands for the compile-time macro \<open>USE_ON1\<close>.\<close>

definition findNeighbor :: "bool \<Rightarrow> Atom \<Rightarrow> outcome" where
  "findNeighbor USE_ON1 atom =
     (if checkIfNeedUpdate atom then
        (let a1 = atom\<lparr> numUpdates := numUpdates atom + 1 \<rparr>;
             a2 = applyPbc a1
         in case (if USE_ON1 then findNeighborON1 a2 else findNeighborON2 a2) of
              Inl e \<Rightarrow> Inl e
            | Inr a3 \<Rightarrow> Inr (updateXyz0 a3))
      else Inr atom)"

section \<open>The Lennard-Jones kernel\<close>

definition epsilon :: real where "epsilon = 1.032 / 100"
definition sigma :: real where "sigma = 3.405"
definition cutoff :: real where "cutoff = 9.0"
definition sigma3 :: real where "sigma3 = sigma * sigma * sigma"
definition sigma6 :: real where "sigma6 = sigma3 * sigma3"
definition sigma12 :: real where "sigma12 = sigma6 * sigma6"
definition e24s6 :: real where "e24s6 = 24.0 * epsilon * sigma6"
definition e48s12 :: real where "e48s12 = 48.0 * epsilon * sigma12"
definition e4s6 :: real where "e4s6 = 4.0 * epsilon * sigma6"
definition e4s12 :: real where "e4s12 = 4.0 * epsilon * sigma12"

text \<open>The two quantities the kernel computes from the squared distance \<open>r2\<close>: the
  factor \<open>f_ij\<close> that multiplies the displacement, and the term added to \<open>pe[i]\<close>,
  which is the whole pair potential \<open>4 \<epsilon> ((\<sigma>/r)\<^sup>1\<^sup>2 - (\<sigma>/r)\<^sup>6)\<close>.\<close>

definition lj_f_ij :: "real \<Rightarrow> real" where
  "lj_f_ij r2 =
     (let r2inv = 1.0 / r2;
          r4inv = r2inv * r2inv;
          r6inv = r2inv * r4inv;
          r8inv = r4inv * r4inv;
          r14inv = r6inv * r8inv
      in e24s6 * r8inv - e48s12 * r14inv)"

definition lj_pe :: "real \<Rightarrow> real" where
  "lj_pe r2 =
     (let r2inv = 1.0 / r2;
          r4inv = r2inv * r2inv;
          r6inv = r2inv * r4inv;
          r8inv = r4inv * r4inv;
          r12inv = r4inv * r8inv
      in e4s12 * r12inv - e4s6 * r6inv)"

text \<open>The body of the loop over the slots \<open>jj\<close> of atom \<open>i\<close>.\<close>

definition findForce_slot :: "nat \<Rightarrow> nat \<Rightarrow> Atom \<Rightarrow> Atom" where
  "findForce_slot i jj atom =
     (let j = NL atom (i * MN atom + jj) in
      case applyMic (box atom) (x atom j - x atom i, y atom j - y atom i, z atom j - z atom i)
      of (xij, yij, zij) \<Rightarrow>
        (let r2 = xij * xij + yij * yij + zij * zij in
         if r2 > cutoff * cutoff then atom
         else
          (let f_ij = lj_f_ij r2;
               pe1 = (pe atom)(i := pe atom i + lj_pe r2);
               fx1 = (fx atom)(i := fx atom i + f_ij * xij);
               fx2 = fx1(j := fx1 j - f_ij * xij);
               fy1 = (fy atom)(i := fy atom i + f_ij * yij);
               fy2 = fy1(j := fy1 j - f_ij * yij);
               fz1 = (fz atom)(i := fz atom i + f_ij * zij);
               fz2 = fz1(j := fz1 j - f_ij * zij)
           in atom\<lparr> fx := fx2, fy := fy2, fz := fz2, pe := pe1 \<rparr>)))"

definition zeroReal :: "nat \<Rightarrow> (nat \<Rightarrow> real) \<Rightarrow> (nat \<Rightarrow> real)" where
  "zeroReal len v = (\<lambda>n. if n < len then 0.0 else v n)"

definition findForce :: "Atom \<Rightarrow> Atom" where
  "findForce atom =
     (let a0 = atom\<lparr> fx := zeroReal (number atom) (fx atom),
                      fy := zeroReal (number atom) (fy atom),
                      fz := zeroReal (number atom) (fz atom),
                      pe := zeroReal (number atom) (pe atom) \<rparr>
      in fold (\<lambda>i a. fold (findForce_slot i) [0 ..< NN a i] a) [0 ..< number atom] a0)"

text \<open>\<open>std::accumulate(atom.pe.begin(), atom.pe.end(), 0.0)\<close>, the potential energy
  that \<open>main\<close> writes out.\<close>

definition totalPe :: "Atom \<Rightarrow> real" where
  "totalPe atom = (\<Sum>n < number atom. pe atom n)"

section \<open>The Tersoff kernel\<close>

definition find_fr_and_frp :: "real \<Rightarrow> real \<times> real" where
  "find_fr_and_frp d12 = (let fr = 1393.6 * exp (- 3.4879 * d12) in (fr, - 3.4879 * fr))"

definition find_fa_and_fap :: "real \<Rightarrow> real \<times> real" where
  "find_fa_and_fap d12 = (let fa = 430.0 * exp (- 2.2119 * d12) in (fa, - 2.2119 * fa))"

definition find_fa :: "real \<Rightarrow> real" where
  "find_fa d12 = 430.0 * exp (- 2.2119 * d12)"

definition pi_factor :: real where
  "pi_factor = 3.141592653589793 / (2.1 - 1.8)"

definition find_fc_and_fcp :: "real \<Rightarrow> real \<times> real" where
  "find_fc_and_fcp d12 =
     (if d12 < 1.8 then (1.0, 0.0)
      else if d12 < 2.1 then
        (cos (pi_factor * (d12 - 1.8)) * 0.5 + 0.5,
         - sin (pi_factor * (d12 - 1.8)) * pi_factor * 0.5)
      else (0.0, 0.0))"

definition find_fc :: "real \<Rightarrow> real" where
  "find_fc d12 =
     (if d12 < 1.8 then 1.0
      else if d12 < 2.1 then cos (pi_factor * (d12 - 1.8)) * 0.5 + 0.5
      else 0.0)"

definition find_g_and_gp :: "real \<Rightarrow> real \<times> real" where
  "find_g_and_gp cs =
     (let c = 38049.0; d = 4.3484; h = - 0.930;
          c2 = c * c; d2 = d * d; c2overd2 = c2 / d2;
          temp = d2 + (cs - h) * (cs - h)
      in (1.0 + c2overd2 - c2 / temp, 2.0 * c2 * (cs - h) / (temp * temp)))"

definition find_g :: "real \<Rightarrow> real" where
  "find_g cs =
     (let c = 38049.0; d = 4.3484; h = - 0.930;
          c2 = c * c; d2 = d * d; c2overd2 = c2 / d2;
          temp = d2 + (cs - h) * (cs - h)
      in 1.0 + c2overd2 - c2 / temp)"

text \<open>
  The array parameters of the two Tersoff functions (\<open>N\<close>, \<open>NN\<close>, \<open>NL\<close>, \<open>MN\<close>, the
  positions and velocities) are passed on their own, beside the \<open>Atom\<close> whose \<open>box\<close> the
  minimum image uses; they are gathered in one record. The parameters \<open>pbc\<close> and
  \<open>box[3]\<close> are never read.
\<close>

record lists =
  N' :: nat
  NN' :: "nat \<Rightarrow> nat"
  NL' :: "nat \<Rightarrow> nat"
  MN' :: nat
  x' :: "nat \<Rightarrow> real"
  y' :: "nat \<Rightarrow> real"
  z' :: "nat \<Rightarrow> real"
  vx' :: "nat \<Rightarrow> real"
  vy' :: "nat \<Rightarrow> real"
  vz' :: "nat \<Rightarrow> real"

definition displacement :: "Atom \<Rightarrow> lists \<Rightarrow> nat \<Rightarrow> nat \<Rightarrow> real \<times> real \<times> real" where
  "displacement atom L n1 n2 =
     applyMic (box atom) (x' L n2 - x' L n1, y' L n2 - y' L n1, z' L n2 - z' L n1)"

definition norm3 :: "real \<times> real \<times> real \<Rightarrow> real" where
  "norm3 r = (case r of (rx, ry, rz) \<Rightarrow> sqrt (rx * rx + ry * ry + rz * rz))"

definition dot3 :: "real \<times> real \<times> real \<Rightarrow> real \<times> real \<times> real \<Rightarrow> real" where
  "dot3 r s = (case (r, s) of ((rx, ry, rz), (sx, sy, sz)) \<Rightarrow> rx * sx + ry * sy + rz * sz)"

text \<open>The three-body sum \<open>zeta\<close> of the directed bond in slot \<open>i1\<close> of atom \<open>n1\<close>.\<close>

definition zeta_of :: "Atom \<Rightarrow> lists \<Rightarrow> nat \<Rightarrow> nat \<Rightarrow> real" where
  "zeta_of atom L n1 i1 =
     (let n2 = NL' L (n1 * MN' L + i1);
          r12 = displacement atom L n1 n2;
          d12 = norm3 r12
      in fold (\<lambda>i2 zeta.
            let n3 = NL' L (n1 * MN' L + i2) in
            if n3 = n2 then zeta
            else
              (let r13 = displacement atom L n1 n3;
                   d13 = norm3 r13;
                   cs = dot3 r12 r13 / (d12 * d13)
               in zeta + find_fc d13 * find_g cs))
          [0 ..< NN' L n1] 0.0)"

text \<open>
  The quotient that is stored in \<open>bp\<close>. A \<open>double\<close> division by zero gives an infinity
  or NaN, which is no real number: the stored value is then \<open>None\<close>.
\<close>

definition quotient :: "real \<Rightarrow> real \<Rightarrow> real option" where
  "quotient p q = (if q = 0 then None else Some (p / q))"

definition bp_divisor :: "Atom \<Rightarrow> lists \<Rightarrow> nat \<Rightarrow> nat \<Rightarrow> real" where
  "bp_divisor atom L n1 i1 =
     (let zeta = zeta_of atom L n1 i1;
          bzn = ((1.5724 / 10 ^ 7) * zeta) powr 0.72751
      in (1.0 + bzn) * zeta)"

definition find_b_and_bp_slot ::
  "Atom \<Rightarrow> lists \<Rightarrow> nat \<Rightarrow> nat \<Rightarrow> (nat \<Rightarrow> real) \<times> (nat \<Rightarrow> real option)
     \<Rightarrow> (nat \<Rightarrow> real) \<times> (nat \<Rightarrow> real option)" where
  "find_b_and_bp_slot atom L n1 i1 bs =
     (let beta = (1.5724 / 10 ^ 7);
          n = 0.72751;
          minus_half_over_n = - 0.5 / n;
          zeta = zeta_of atom L n1 i1;
          bzn = (beta * zeta) powr n;
          b12 = (1.0 + bzn) powr minus_half_over_n
      in ((fst bs)(n1 * MN' L + i1 := b12),
          (snd bs)(n1 * MN' L + i1 := quotient (- b12 * bzn * 0.5) ((1.0 + bzn) * zeta))))"

definition find_b_and_bp ::
  "Atom \<Rightarrow> lists \<Rightarrow> (nat \<Rightarrow> real) \<times> (nat \<Rightarrow> real option)
     \<Rightarrow> (nat \<Rightarrow> real) \<times> (nat \<Rightarrow> real option)" where
  "find_b_and_bp atom L bs =
     fold (\<lambda>n1 bs1. fold (find_b_and_bp_slot atom L n1) [0 ..< NN' L n1] bs1) [0 ..< N' L] bs"

text \<open>The search for the slot of \<open>n1\<close> in the list of \<open>n2\<close>; \<open>offset\<close> stays 0 when
  there is none.\<close>

fun find_offset_from :: "lists \<Rightarrow> nat \<Rightarrow> nat \<Rightarrow> nat list \<Rightarrow> nat" where
  "find_offset_from L n2 n1 [] = 0"
| "find_offset_from L n2 n1 (k # ks) =
     (if NL' L (n2 * MN' L + k) = n1 then k else find_offset_from L n2 n1 ks)"

definition find_offset :: "lists \<Rightarrow> nat \<Rightarrow> nat \<Rightarrow> nat" where
  "find_offset L n2 n1 = find_offset_from L n2 n1 [0 ..< NN' L n2]"

text \<open>The statements under \<open>accumulate_force_12\<close> and \<open>accumulate_force_21\<close> compute,
  from a bond order \<open>b12\<close> and the distance, \<open>factor3\<close> and the pair energy
  \<open>factor1 * fc12\<close>.\<close>

definition two_body :: "real \<Rightarrow> real \<Rightarrow> real \<times> real" where
  "two_body b12 d12 =
     (case (find_fc_and_fcp d12, find_fa_and_fap d12, find_fr_and_frp d12)
      of ((fc12, fcp12), (fa12, fap12), (fr12, frp12)) \<Rightarrow>
        (let factor1 = - b12 * fa12 + fr12;
             factor2 = - b12 * fap12 + frp12;
             factor3 = (fcp12 * factor1 + fc12 * factor2) / d12
         in (factor3, factor1 * fc12)))"

text \<open>\<open>accumulate_force_123\<close>: the loop over the other neighbours \<open>n3\<close> of \<open>n1\<close>,
  adding to \<open>f12\<close>.\<close>

definition force_123 ::
  "Atom \<Rightarrow> lists \<Rightarrow> (nat \<Rightarrow> real) \<Rightarrow> nat \<Rightarrow> nat \<Rightarrow> real \<times> real \<times> real \<Rightarrow> real \<times> real \<times> real" where
  "force_123 atom L bp n1 i1 f12 =
     (let n2 = NL' L (n1 * MN' L + i1) in
      case displacement atom L n1 n2 of (x12, y12, z12) \<Rightarrow>
       (let d12 = sqrt (x12 * x12 + y12 * y12 + z12 * z12);
            d12inv = 1.0 / d12;
            fc12 = fst (find_fc_and_fcp d12);
            fcp12 = snd (find_fc_and_fcp d12);
            fa12 = fst (find_fa_and_fap d12);
            bp12 = bp (n1 * MN' L + i1)
        in fold (\<lambda>i2 f.
             let n3 = NL' L (n1 * MN' L + i2) in
             if n3 = n2 then f
             else
              (case (displacement atom L n1 n3, f) of ((x13, y13, z13), (f0, f1, f2)) \<Rightarrow>
                (let d13 = sqrt (x13 * x13 + y13 * y13 + z13 * z13);
                     fc13 = find_fc d13;
                     fa13 = find_fa d13;
                     bp13 = bp (n1 * MN' L + i2);
                     cos123 = (x12 * x13 + y12 * y13 + z12 * z13) / (d12 * d13);
                     g123 = fst (find_g_and_gp cos123);
                     gp123 = snd (find_g_and_gp cos123);
                     cos_x = x13 / (d12 * d13) - x12 * cos123 / (d12 * d12);
                     cos_y = y13 / (d12 * d13) - y12 * cos123 / (d12 * d12);
                     cos_z = z13 / (d12 * d13) - z12 * cos123 / (d12 * d12);
                     factor123a =
                       (- bp12 * fc12 * fa12 * fc13 - bp13 * fc13 * fa13 * fc12) * gp123;
                     factor123b = - bp13 * fc13 * fa13 * fcp12 * g123 * d12inv
                 in (f0 + (x12 * factor123b + factor123a * cos_x) * 0.5,
                     f1 + (y12 * factor123b + factor123a * cos_y) * 0.5,
                     f2 + (z12 * factor123b + factor123a * cos_z) * 0.5))))
           [0 ..< NN' L n1] f12))"

text \<open>\<open>accumulate_force_213\<close>: the loop over the other neighbours \<open>n3\<close> of \<open>n2\<close>,
  adding to \<open>f21\<close>.\<close>

definition force_213 ::
  "Atom \<Rightarrow> lists \<Rightarrow> (nat \<Rightarrow> real) \<Rightarrow> nat \<Rightarrow> nat \<Rightarrow> real \<times> real \<times> real \<Rightarrow> real \<times> real \<times> real" where
  "force_213 atom L bp n1 i1 f21 =
     (let n2 = NL' L (n1 * MN' L + i1) in
      case displacement atom L n1 n2 of (x12, y12, z12) \<Rightarrow>
       (let d12 = sqrt (x12 * x12 + y12 * y12 + z12 * z12);
            d12inv = 1.0 / d12;
            fc12 = fst (find_fc_and_fcp d12);
            fcp12 = snd (find_fc_and_fcp d12);
            fa12 = fst (find_fa_and_fap d12);
            offset = find_offset L n2 n1;
            bp12 = bp (n2 * MN' L + offset)
        in fold (\<lambda>i2 f.
             let n3 = NL' L (n2 * MN' L + i2) in
             if n3 = n1 then f
             else
              (case (displacement atom L n2 n3, f) of ((x23, y23, z23), (f0, f1, f2)) \<Rightarrow>
                (let d23 = sqrt (x23 * x23 + y23 * y23 + z23 * z23);
                     fc23 = find_fc d23;
                     fa23 = find_fa d23;
                     bp13 = bp (n2 * MN' L + i2);
                     cos213 = - (x12 * x23 + y12 * y23 + z12 * z23) / (d12 * d23);
                     g213 = fst (find_g_and_gp cos213);
                     gp213 = snd (find_g_and_gp cos213);
                     cos_x = x23 / (d12 * d23) + x12 * cos213 / (d12 * d12);
                     cos_y = y23 / (d12 * d23) + y12 * cos213 / (d12 * d12);
                     cos_z = z23 / (d12 * d23) + z12 * cos213 / (d12 * d12);
                     factor213a =
                       (- bp12 * fc12 * fa12 * fc23 - bp13 * fc23 * fa23 * fc12) * gp213;
                     factor213b = - bp13 * fc23 * fa23 * fcp12 * g213 * d12inv
                 in (f0 + (- x12 * factor213b + factor213a * cos_x) * 0.5,
                     f1 + (- y12 * factor213b + factor213a * cos_y) * 0.5,
                     f2 + (- z12 * factor213b + factor213a * cos_z) * 0.5))))
           [0 ..< NN' L n2] f21))"

text \<open>What one visit of slot \<open>i1\<close> of atom \<open>n1\<close> computes before it touches the output
  arrays: \<open>f12\<close>, \<open>f21\<close>, \<open>p12\<close> and \<open>p21\<close>.\<close>

definition f12_of :: "Atom \<Rightarrow> lists \<Rightarrow> (nat \<Rightarrow> real) \<Rightarrow> (nat \<Rightarrow> real) \<Rightarrow> nat \<Rightarrow> nat \<Rightarrow> real \<times> real \<times> real" where
  "f12_of atom L b bp n1 i1 =
     (let n2 = NL' L (n1 * MN' L + i1) in
      case displacement atom L n1 n2 of (x12, y12, z12) \<Rightarrow>
       (let d12 = sqrt (x12 * x12 + y12 * y12 + z12 * z12);
            factor3 = fst (two_body (b (n1 * MN' L + i1)) d12)
        in force_123 atom L bp n1 i1
             (0.0 + x12 * factor3 * 0.5, 0.0 + y12 * factor3 * 0.5, 0.0 + z12 * factor3 * 0.5)))"

definition f21_of :: "Atom \<Rightarrow> lists \<Rightarrow> (nat \<Rightarrow> real) \<Rightarrow> (nat \<Rightarrow> real) \<Rightarrow> nat \<Rightarrow> nat \<Rightarrow> real \<times> real \<times> real" where
  "f21_of atom L b bp n1 i1 =
     (let n2 = NL' L (n1 * MN' L + i1) in
      case displacement atom L n1 n2 of (x12, y12, z12) \<Rightarrow>
       (let d12 = sqrt (x12 * x12 + y12 * y12 + z12 * z12);
            offset = find_offset L n2 n1;
            factor3 = fst (two_body (b (n2 * MN' L + offset)) d12)
        in force_213 atom L bp n1 i1
             (0.0 + - x12 * factor3 * 0.5, 0.0 + - y12 * factor3 * 0.5,
              0.0 + - z12 * factor3 * 0.5)))"

definition p12_of :: "Atom \<Rightarrow> lists \<Rightarrow> (nat \<Rightarrow> real) \<Rightarrow> nat \<Rightarrow> nat \<Rightarrow> real" where
  "p12_of atom L b n1 i1 =
     (let n2 = NL' L (n1 * MN' L + i1)
      in 0.0 + snd (two_body (b (n1 * MN' L + i1)) (norm3 (displacement atom L n1 n2))))"

definition p21_of :: "Atom \<Rightarrow> lists \<Rightarrow> (nat \<Rightarrow> real) \<Rightarrow> nat \<Rightarrow> nat \<Rightarrow> real" where
  "p21_of atom L b n1 i1 =
     (let n2 = NL' L (n1 * MN' L + i1);
          offset = find_offset L n2 n1
      in 0.0 + snd (two_body (b (n2 * MN' L + offset)) (norm3 (displacement atom L n1 n2))))"

text \<open>The output arrays of \<open>find_force_tersoff\<close>.\<close>

record accum =
  fx' :: "nat \<Rightarrow> real"
  fy' :: "nat \<Rightarrow> real"
  fz' :: "nat \<Rightarrow> real"
  prop' :: "nat \<Rightarrow> real"

text \<open>The net pair force \<open>(fx12, fy12, fz12)\<close> of a visit.\<close>

definition f_net :: "Atom \<Rightarrow> lists \<Rightarrow> (nat \<Rightarrow> real) \<Rightarrow> (nat \<Rightarrow> real) \<Rightarrow> nat \<Rightarrow> nat \<Rightarrow> real \<times> real \<times> real" where
  "f_net atom L b bp n1 i1 =
     (case (f12_of atom L b bp n1 i1, f21_of atom L b bp n1 i1)
      of ((f12x, f12y, f12z), (f21x, f21y, f21z)) \<Rightarrow> (f12x - f21x, f12y - f21y, f12z - f21z))"

definition find_force_tersoff_slot ::
  "Atom \<Rightarrow> lists \<Rightarrow> (nat \<Rightarrow> real) \<Rightarrow> (nat \<Rightarrow> real) \<Rightarrow> nat \<Rightarrow> nat \<Rightarrow> accum \<Rightarrow> accum" where
  "find_force_tersoff_slot atom L b bp n1 i1 out =
     (let n2 = NL' L (n1 * MN' L + i1) in
      if n2 < n1 then out
      else
       (case (displacement atom L n1 n2, f12_of atom L b bp n1 i1, f21_of atom L b bp n1 i1,
              f_net atom L b bp n1 i1)
        of ((x12, y12, z12), (f12x, f12y, f12z), (f21x, f21y, f21z), (fx12, fy12, fz12)) \<Rightarrow>
         (let p12 = p12_of atom L b n1 i1;
              p21 = p21_of atom L b n1 i1;
              fx1 = (fx' out)(n1 := fx' out n1 + fx12);
              fy1 = (fy' out)(n1 := fy' out n1 + fy12);
              fz1 = (fz' out)(n1 := fz' out n1 + fz12);
              fx2 = fx1(n2 := fx1 n2 - fx12);
              fy2 = fy1(n2 := fy1 n2 - fy12);
              fz2 = fz1(n2 := fz1 n2 - fz12);
              f12_dot_v2 = f12x * vx' L n2 + f12y * vy' L n2 + f12z * vz' L n2;
              f21_dot_v1 = f21x * vx' L n1 + f21y * vy' L n1 + f21z * vz' L n1;
              pr = prop' out;
              pr = pr(0 := pr 0 + (p12 + p21) * 0.5);
              pr = pr(1 := pr 1 - fx12 * x12);
              pr = pr(2 := pr 2 - fy12 * y12);
              pr = pr(3 := pr 3 - fz12 * z12);
              pr = pr(4 := pr 4 - (f12_dot_v2 - f21_dot_v1) * x12);
              pr = pr(5 := pr 5 - (f12_dot_v2 - f21_dot_v1) * y12);
              pr = pr(6 := pr 6 - (f12_dot_v2 - f21_dot_v1) * z12)
          in out\<lparr> fx' := fx2, fy' := fy2, fz' := fz2, prop' := pr \<rparr>)))"

definition find_force_tersoff ::
  "Atom \<Rightarrow> lists \<Rightarrow> (nat \<Rightarrow> real) \<Rightarrow> (nat \<Rightarrow> real) \<Rightarrow> accum \<Rightarrow> accum" where
  "find_force_tersoff atom L b bp out =
     (let out0 = \<lparr> fx' = zeroReal (N' L) (fx' out), fy' = zeroReal (N' L) (fy' out),
                   fz' = zeroReal (N' L) (fz' out), prop' = zeroReal 7 (prop' out) \<rparr>
      in fold (\<lambda>n1 o1. fold (find_force_tersoff_slot atom L b bp n1) [0 ..< NN' L n1] o1)
           [0 ..< N' L] out0)"

section \<open>Auxiliary notions and sample configurations\<close>

definition map3 :: "(real \<Rightarrow> real) \<Rightarrow> real \<times> real \<times> real \<Rightarrow> real \<times> real \<times> real" where
  "map3 f s = (case s of (sx, sy, sz) \<Rightarrow> (f sx, f sy, f sz))"

definition position :: "Atom \<Rightarrow> nat \<Rightarrow> real \<times> real \<times> real" where
  "position atom n = (x atom n, y atom n, z atom n)"

text \<open>The squared distance of atom \<open>n\<close> from its reference position, as
  \<open>checkIfNeedUpdate\<close> computes it.\<close>

definition displacementSquare :: "Atom \<Rightarrow> nat \<Rightarrow> real" where
  "displacementSquare atom n =
     (x atom n - x0 atom n) * (x atom n - x0 atom n)
     + (y atom n - y0 atom n) * (y atom n - y0 atom n)
     + (z atom n - z0 atom n) * (z atom n - z0 atom n)"

text \<open>\<open>a'\<close> differs from \<open>a\<close> at most in the neighbour list.\<close>

definition same_but_list :: "Atom \<Rightarrow> Atom \<Rightarrow> bool" where
  "same_but_list a a' \<longleftrightarrow> a'\<lparr> NN := NN a, NL := NL a \<rparr> = a"

text \<open>Two atoms at \<open>(p, 1, 1)\<close> and \<open>(q, 1, 1)\<close> in a cubic box of side \<open>l\<close>, with
  capacity \<open>cap\<close>, neighbour cutoff 10, an empty neighbour list and reference positions
  \<open>(r, 1, 1)\<close>.\<close>

definition two_atoms :: "real \<Rightarrow> nat \<Rightarrow> real \<Rightarrow> real \<Rightarrow> real \<Rightarrow> Atom" where
  "two_atoms l cap r p q = \<lparr> number = 2, numUpdates = 0, MN = cap, cutoffNeighbor = 10,
     box = cube l, NN = (\<lambda>n. 0), NL = (\<lambda>n. 0), mass = (\<lambda>n. 40),
     x0 = (\<lambda>n. r), y0 = (\<lambda>n. 1), z0 = (\<lambda>n. 1),
     x = (\<lambda>n. if n = 0 then p else q), y = (\<lambda>n. 1), z = (\<lambda>n. 1),
     vx = (\<lambda>n. 0), vy = (\<lambda>n. 0), vz = (\<lambda>n. 0),
     fx = (\<lambda>n. 0), fy = (\<lambda>n. 0), fz = (\<lambda>n. 0), pe = (\<lambda>n. 0) \<rparr>"

text \<open>A property of the state of the \<open>Atom\<close> structure at the end of a run, however
  the run ends.\<close>

definition at_end :: "(Atom \<Rightarrow> bool) \<Rightarrow> outcome \<Rightarrow> bool" where
  "at_end I r = (case r of Inr a' \<Rightarrow> I a' | Inl (e, a') \<Rightarrow> I a')"

text \<open>A state in which the last atom has reached the capacity and the store holds the
  value 5 everywhere.\<close>

definition last_full :: "Atom \<Rightarrow> Atom" where
  "last_full a = a\<lparr> NN := (\<lambda>n. if n + 1 = number a then MN a else 0), NL := (\<lambda>n. 5) \<rparr>"

text \<open>The neighbour list of two atoms that are each other's only neighbour: what
  \<open>findNeighborON2\<close> builds for \<open>two_atoms l cap r p q\<close> when the atoms are within the
  cutoff and \<open>cap\<close> is not 0 (the slots \<open>0\<close> and \<open>cap\<close> hold the atoms 1 and 0).\<close>

definition paired :: "Atom \<Rightarrow> Atom" where
  "paired a = a\<lparr> NN := (\<lambda>n. if n < 2 then 1 else 0), NL := (\<lambda>s. if s = 0 then 1 else 0) \<rparr>"

text \<open>The same list and two positions 1.5 apart, as arguments of the Tersoff functions.\<close>

definition dimer :: lists where
  "dimer = \<lparr> N' = 2, NN' = (\<lambda>n. 1), NL' = (\<lambda>s. if s = 0 then 1 else 0), MN' = 1,
     x' = (\<lambda>n. if n = 0 then 1 else 2.5), y' = (\<lambda>n. 1), z' = (\<lambda>n. 1),
     vx' = (\<lambda>n. 0), vy' = (\<lambda>n. 0), vz' = (\<lambda>n. 0) \<rparr>"

text \<open>The list of atom \<open>i\<close>: the first \<open>NN[i]\<close> slots of its stride.\<close>

definition neighbours :: "Atom \<Rightarrow> nat \<Rightarrow> nat list" where
  "neighbours a i = map (\<lambda>s. NL a (i * MN a + s)) [0 ..< NN a i]"

text \<open>Recording a sequence of accepted pairs one after the other.\<close>

definition record_all :: "(nat \<times> nat) list \<Rightarrow> Atom \<Rightarrow> outcome" where
  "record_all ps a = for_each (\<lambda>p. record_pair (fst p) (snd p)) ps a"

text \<open>The partners of atom \<open>i\<close> in a sequence of pairs, in the order of the sequence.\<close>

definition partners :: "(nat \<times> nat) list \<Rightarrow> nat \<Rightarrow> nat list" where
  "partners ps i =
     concat (map (\<lambda>p. if fst p = i then [snd p] else if snd p = i then [fst p] else []) ps)"

text \<open>The test both builders apply to a pair.\<close>

definition within_cutoff :: "Atom \<Rightarrow> nat \<Rightarrow> nat \<Rightarrow> bool" where
  "within_cutoff a i j \<longleftrightarrow> micDistanceSquare a i j < cutoffNeighbor a * cutoffNeighbor a"

text \<open>The pairs \<open>(i, j)\<close> in the order in which the two loops of \<open>findNeighborON2\<close>
  reach them.\<close>

definition all_pairs :: "nat \<Rightarrow> (nat \<times> nat) list" where
  "all_pairs n = concat (map (\<lambda>i. map (Pair i) [i + 1 ..< n]) [0 ..< n - 1])"

text \<open>The atoms other than \<open>i\<close> whose minimum-image distance to \<open>i\<close> is below the
  cutoff.\<close>

definition true_neighbours :: "Atom \<Rightarrow> nat \<Rightarrow> nat set" where
  "true_neighbours a i = {j. j < number a \<and> j \<noteq> i \<and> within_cutoff a i j}"

text \<open>The state in which a builder starts to record pairs.\<close>

definition cleared :: "Atom \<Rightarrow> Atom" where
  "cleared a = a\<lparr> NN := fill_zero (number a) (NN a) \<rparr>"

text \<open>A property of an outcome: \<open>I\<close> of the state after a normal end, \<open>E\<close> of the
  error and the state after a fatal end.\<close>

definition outcome_is :: "(Atom \<Rightarrow> bool) \<Rightarrow> (fatal \<times> Atom \<Rightarrow> bool) \<Rightarrow> outcome \<Rightarrow> bool" where
  "outcome_is I E r = (case r of Inr a' \<Rightarrow> I a' | Inl ea \<Rightarrow> E ea)"

text \<open>The pairs a builder may record for \<open>a\<close>: two different atoms, the smaller index
  first, within the cutoff of each other.\<close>

definition true_pair :: "Atom \<Rightarrow> nat \<times> nat \<Rightarrow> bool" where
  "true_pair a p \<longleftrightarrow> fst p < snd p \<and> snd p < number a \<and> within_cutoff a (fst p) (snd p)"

text \<open>The fatal end the capacity check produces: the message names an atom whose count
  has just passed \<open>MN\<close>, and \<open>MN\<close>.\<close>

definition overflow_reported :: "Atom \<Rightarrow> fatal \<times> Atom \<Rightarrow> bool" where
  "overflow_reported a ea \<longleftrightarrow>
     (\<exists>k < number a. fst ea = NeighborOverflow k (MN a) \<and> NN (snd ea) k = MN a + 1)"

text \<open>\<open>a'\<close> is the state after recording, from the cleared state of \<open>a\<close>, a sequence
  of true pairs in full.\<close>

definition recorded :: "Atom \<Rightarrow> Atom \<Rightarrow> bool" where
  "recorded a a' \<longleftrightarrow>
     (\<exists>ps. record_all ps (cleared a) = Inr a' \<and> (\<forall>p \<in> set ps. true_pair a p))"

definition builder_fatal :: "Atom \<Rightarrow> fatal \<times> Atom \<Rightarrow> bool" where
  "builder_fatal a ea \<longleftrightarrow> fst ea = OutOfBounds \<or> overflow_reported a ea"

text \<open>The neighbour list as the Tersoff functions receive it: the list of atom \<open>n\<close>, the
  slots \<open>(n1, i1)\<close> in the order of the two outer loops, and the atom in a slot.\<close>

definition neighbours' :: "lists \<Rightarrow> nat \<Rightarrow> nat list" where
  "neighbours' L n = map (\<lambda>i. NL' L (n * MN' L + i)) [0 ..< NN' L n]"

definition slots :: "lists \<Rightarrow> (nat \<times> nat) list" where
  "slots L = concat (map (\<lambda>n1. map (Pair n1) [0 ..< NN' L n1]) [0 ..< N' L])"

definition partner :: "lists \<Rightarrow> nat \<times> nat \<Rightarrow> nat" where
  "partner L s = NL' L (fst s * MN' L + snd s)"

text \<open>The slots that \<open>find_force_tersoff\<close> does not skip.\<close>

definition visited :: "lists \<Rightarrow> (nat \<times> nat) list" where
  "visited L = filter (\<lambda>s. \<not> partner L s < fst s) (slots L)"

text \<open>A symmetric list without duplicates and self-pairs, over atoms below \<open>N\<close>.\<close>

definition symmetric_list :: "lists \<Rightarrow> bool" where
  "symmetric_list L \<longleftrightarrow>
     (\<forall>n1 < N' L. distinct (neighbours' L n1)
        \<and> (\<forall>n2 \<in> set (neighbours' L n1). n2 < N' L \<and> n2 \<noteq> n1 \<and> n1 \<in> set (neighbours' L n2)))"

text \<open>What a visit of slot \<open>s\<close> adds to the force on atom \<open>n\<close>, per component, and to
  \<open>prop[0]\<close>.\<close>

definition pair_force :: "Atom \<Rightarrow> lists \<Rightarrow> (nat \<Rightarrow> real) \<Rightarrow> (nat \<Rightarrow> real) \<Rightarrow> nat \<times> nat \<Rightarrow> nat
    \<Rightarrow> real \<times> real \<times> real" where
  "pair_force atom L b bp s n =
     (case f_net atom L b bp (fst s) (snd s) of (fx12, fy12, fz12) \<Rightarrow>
        ((if n = fst s then fx12 else 0) - (if n = partner L s then fx12 else 0),
         (if n = fst s then fy12 else 0) - (if n = partner L s then fy12 else 0),
         (if n = fst s then fz12 else 0) - (if n = partner L s then fz12 else 0)))"

definition pair_energy :: "Atom \<Rightarrow> lists \<Rightarrow> (nat \<Rightarrow> real) \<Rightarrow> nat \<times> nat \<Rightarrow> real" where
  "pair_energy atom L b s =
     (p12_of atom L b (fst s) (snd s) + p21_of atom L b (fst s) (snd s)) * 0.5"

text \<open>Output arrays holding the value 7 everywhere, to be overwritten.\<close>

definition stale :: accum where
  "stale = \<lparr> fx' = (\<lambda>n. 7), fy' = (\<lambda>n. 7), fz' = (\<lambda>n. 7), prop' = (\<lambda>n. 7) \<rparr>"

text \<open>The \<open>Atom\<close> structure that \<open>findNeighbor\<close> receives at the first step of a run
  with \<open>numCells = 1\<close>: the four atoms of one face-centred cubic cell of side \<open>l\<close> (as
  \<open>initializePosition\<close> places them; the program has \<open>l = 5.385\<close>), reference
  positions still 0; the velocities, which no builder reads, are 0 here.\<close>

definition fcc_cell :: "real \<Rightarrow> Atom" where
  "fcc_cell l = \<lparr> number = 4, numUpdates = 0, MN = 1000, cutoffNeighbor = 10,
     box = cube l, NN = (\<lambda>n. 0), NL = (\<lambda>n. 0), mass = (\<lambda>n. 40),
     x0 = (\<lambda>n. 0), y0 = (\<lambda>n. 0), z0 = (\<lambda>n. 0),
     x = (\<lambda>n. if n = 2 \<or> n = 3 then l / 2 else 0),
     y = (\<lambda>n. if n = 1 \<or> n = 3 then l / 2 else 0),
     z = (\<lambda>n. if n = 1 \<or> n = 2 then l / 2 else 0),
     vx = (\<lambda>n. 0), vy = (\<lambda>n. 0), vz = (\<lambda>n. 0),
     fx = (\<lambda>n. 0), fy = (\<lambda>n. 0), fz = (\<lambda>n. 0), pe = (\<lambda>n. 0) \<rparr>"




section \<open>Properties of the box geometry\<close>

lemma getInverseBox_low: "n < 9 \<Longrightarrow> getInverseBox b n = b n"
  by (simp add: getInverseBox_def Let_def)

lemma getInverseBox_vals:
  "getInverseBox b 9 = (b 4 * b 8 - b 5 * b 7) / getDet b"
  "getInverseBox b 10 = (b 2 * b 7 - b 1 * b 8) / getDet b"
  "getInverseBox b 11 = (b 1 * b 5 - b 2 * b 4) / getDet b"
  "getInverseBox b 12 = (b 5 * b 6 - b 3 * b 8) / getDet b"
  "getInverseBox b 13 = (b 0 * b 8 - b 2 * b 6) / getDet b"
  "getInverseBox b 14 = (b 2 * b 3 - b 0 * b 5) / getDet b"
  "getInverseBox b 15 = (b 3 * b 7 - b 4 * b 6) / getDet b"
  "getInverseBox b 16 = (b 1 * b 6 - b 0 * b 7) / getDet b"
  "getInverseBox b 17 = (b 0 * b 4 - b 1 * b 3) / getDet b"
  by (simp_all add: getInverseBox_def Let_def getDet_def)

lemma inverse_row:
  fixes d :: real
  assumes "d \<noteq> 0" and "p * u + q * v + r * w = d * s"
  shows "p / d * u + q / d * v + r / d * w = s"
proof -
  have "p / d * u + q / d * v + r / d * w = (p * u + q * v + r * w) / d"
    by (simp add: add_divide_distrib)
  also have "\<dots> = s" using assms by simp
  finally show ?thesis .
qed

text \<open>With a non-degenerate lattice block, entries 9..17 as \<open>getInverseBox\<close> fills them
  invert entries 0..8.\<close>

lemma fractional_cartesian:
  assumes d: "getDet b \<noteq> 0"
  shows "fractional (getInverseBox b) (cartesian (getInverseBox b) s) = s"
proof -
  obtain sx sy sz where s: "s = (sx, sy, sz)" by (cases s) auto
  let ?u = "b 0 * sx + b 1 * sy + b 2 * sz"
  let ?v = "b 3 * sx + b 4 * sy + b 5 * sz"
  let ?w = "b 6 * sx + b 7 * sy + b 8 * sz"
  have 1: "(b 4 * b 8 - b 5 * b 7) / getDet b * ?u + (b 2 * b 7 - b 1 * b 8) / getDet b * ?v
        + (b 1 * b 5 - b 2 * b 4) / getDet b * ?w = sx"
    by (rule inverse_row [OF d]) (simp add: getDet_def algebra_simps)
  have 2: "(b 5 * b 6 - b 3 * b 8) / getDet b * ?u + (b 0 * b 8 - b 2 * b 6) / getDet b * ?v
        + (b 2 * b 3 - b 0 * b 5) / getDet b * ?w = sy"
    by (rule inverse_row [OF d]) (simp add: getDet_def algebra_simps)
  have 3: "(b 3 * b 7 - b 4 * b 6) / getDet b * ?u + (b 1 * b 6 - b 0 * b 7) / getDet b * ?v
        + (b 0 * b 4 - b 1 * b 3) / getDet b * ?w = sz"
    by (rule inverse_row [OF d]) (simp add: getDet_def algebra_simps)
  have low: "getInverseBox b 0 = b 0" "getInverseBox b 1 = b 1" "getInverseBox b 2 = b 2"
    "getInverseBox b 3 = b 3" "getInverseBox b 4 = b 4" "getInverseBox b 5 = b 5"
    "getInverseBox b 6 = b 6" "getInverseBox b 7 = b 7" "getInverseBox b 8 = b 8"
    by (simp_all add: getInverseBox_low)
  show ?thesis
    unfolding s fractional_def cartesian_def prod.case getInverseBox_vals low
    by (simp only: 1 2 3)
qed

lemma getInverseBox_cube: "l \<noteq> 0 \<Longrightarrow> getInverseBox (cube l) = cube l"
  by (rule ext) (simp add: getInverseBox_def Let_def cube_def getDet_def)

lemma getDet_cube: "getDet (cube l) = l * l * l"
  by (simp add: getDet_def cube_def)

lemma applyMic_eq:
  "applyMic b r = cartesian b (map3 applyMicOne (fractional b r))"
  by (cases r) (simp add: applyMic_def cartesian_def fractional_def map3_def Let_def)

text \<open>
  Claim C5, as amended. \<open>applyMic\<close> converts the displacement to fractional
  coordinates with the inverse block, shifts each fractional component once (by \<open>+1\<close>
  below \<open>-0.5\<close>, by \<open>-1\<close> above \<open>0.5\<close>) and converts back. With a non-degenerate
  box the fractional components of the result are the shifted ones, and a shifted
  component lies in \<open>(-0.5, 0.5]\<close> exactly when the original one lies in
  \<open>(-1.5, 1.5]\<close> and is not \<open>-0.5\<close>.
\<close>

theorem applyMic_single_shift:
  assumes "getDet b \<noteq> 0"
  shows "applyMic (getInverseBox b) r
           = cartesian (getInverseBox b) (map3 applyMicOne (fractional (getInverseBox b) r))
       \<and> fractional (getInverseBox b) (applyMic (getInverseBox b) r)
           = map3 applyMicOne (fractional (getInverseBox b) r)
       \<and> (\<forall>s. applyMicOne s = (if s < - 0.5 then s + 1 else if s > 0.5 then s - 1 else s))
       \<and> (\<forall>s. (- 0.5 < applyMicOne s \<and> applyMicOne s \<le> 0.5)
               \<longleftrightarrow> (- 1.5 < s \<and> s \<le> 1.5 \<and> s \<noteq> - 0.5))"
proof (intro conjI allI)
  show "applyMic (getInverseBox b) r
          = cartesian (getInverseBox b) (map3 applyMicOne (fractional (getInverseBox b) r))"
    by (rule applyMic_eq)
  then show "fractional (getInverseBox b) (applyMic (getInverseBox b) r)
          = map3 applyMicOne (fractional (getInverseBox b) r)"
    by (simp add: fractional_cartesian [OF assms])
  show "applyMicOne s = (if s < - 0.5 then s + 1 else if s > 0.5 then s - 1 else s)" for s
    by (simp add: applyMicOne_def)
  show "(- 0.5 < applyMicOne s \<and> applyMicOne s \<le> 0.5)
          \<longleftrightarrow> (- 1.5 < s \<and> s \<le> 1.5 \<and> s \<noteq> - 0.5)" for s
    by (auto simp: applyMicOne_def)
qed

theorem applyMic_single_shift_witness:
  "getDet (cube 10) \<noteq> 0
   \<and> fractional (cube 10) (applyMic (cube 10) (7, 0, 0)) = (- 0.3, 0, 0)
   \<and> applyMic (cube 10) (7, 0, 0) = (- 3, 0, 0)"
proof -
  have d: "getDet (cube 10) \<noteq> 0" by (simp add: getDet_cube)
  have i: "getInverseBox (cube 10) = cube 10" by (simp add: getInverseBox_cube)
  have f: "fractional (cube 10) (7, 0, 0) = (0.7, 0, 0)"
    by (simp add: fractional_def cube_def)
  from applyMic_single_shift [OF d, of "(7, 0, 0)"] d show ?thesis
    unfolding i f by (simp add: map3_def applyMicOne_def cartesian_def cube_def fractional_def)
qed

text \<open>
  Claim C5 as stated fails: a displacement of two box lengths is shifted once and keeps
  the fractional component 1, and a fractional component of exactly \<open>-0.5\<close> is left
  where it is, outside \<open>(-0.5, 0.5]\<close>.
\<close>

theorem applyMic_not_in_half_open_interval:
  "fst (fractional (cube 10) (applyMic (cube 10) (20, 0, 0))) = 1
   \<and> \<not> (1 \<le> (0.5 :: real))
   \<and> fst (fractional (cube 10) (applyMic (cube 10) (- 5, 0, 0))) = - 0.5
   \<and> \<not> (- 0.5 < (- 0.5 :: real))"
  by (simp add: fractional_def applyMic_def cube_def applyMicOne_def)

section \<open>Properties of the periodic wrap\<close>

lemma applyPbc_atom_eq:
  "applyPbc_atom n atom =
     (let p = cartesian (box atom) (map3 applyPbcOne (fractional (box atom) (position atom n)))
      in atom\<lparr> x := (x atom)(n := fst p), y := (y atom)(n := fst (snd p)),
                z := (z atom)(n := snd (snd p)) \<rparr>)"
  by (simp add: applyPbc_atom_def Let_def cartesian_def map3_def fractional_def position_def)

lemma fold_applyPbc_atom:
  "distinct ns \<Longrightarrow>
   box (fold applyPbc_atom ns atom) = box atom \<and>
   position (fold applyPbc_atom ns atom) n =
     (if n \<in> set ns
      then cartesian (box atom) (map3 applyPbcOne (fractional (box atom) (position atom n)))
      else position atom n)"
proof (induction ns arbitrary: atom)
  case Nil
  then show ?case by simp
next
  case (Cons m ns)
  let ?a = "applyPbc_atom m atom"
  have b: "box ?a = box atom" by (simp add: applyPbc_atom_eq Let_def)
  have p: "position ?a n = (if n = m
      then cartesian (box atom) (map3 applyPbcOne (fractional (box atom) (position atom n)))
      else position atom n)"
    by (simp add: applyPbc_atom_eq Let_def position_def)
  from Cons.prems have d: "distinct ns" and m: "m \<notin> set ns" by simp_all
  from Cons.IH [OF d, of ?a] b p m show ?case by auto
qed


lemma applyPbc_box: "box (applyPbc atom) = box atom"
  using fold_applyPbc_atom [of "[0 ..< number atom]" atom 0] by (simp add: applyPbc_def)






section \<open>Loops that may end the run\<close>

lemma for_each_invariant:
  assumes "\<And>v a a'. v \<in> set vs \<Longrightarrow> I a \<Longrightarrow> body v a = Inr a' \<Longrightarrow> I a'"
    and "I atom" and "for_each body vs atom = Inr atom'"
  shows "I atom'"
  using assms
proof (induction vs arbitrary: atom)
  case Nil
  then show ?case by simp
next
  case (Cons v vs)
  from Cons.prems(3) obtain a1 where 1: "body v atom = Inr a1" and 2: "for_each body vs a1 = Inr atom'"
    by (auto split: sum.splits)
  have a1: "I a1" using Cons.prems(1) [of v atom a1] Cons.prems(2) 1 by simp
  have step: "\<And>w a a'. w \<in> set vs \<Longrightarrow> I a \<Longrightarrow> body w a = Inr a' \<Longrightarrow> I a'"
    using Cons.prems(1) by (meson list.set_intros(2))
  show ?case by (rule Cons.IH [OF step a1 2])
qed

lemma at_end_simps [simp]: "at_end I (Inr a') = I a'" "at_end I (Inl (e, a')) = I a'"
  by (simp_all add: at_end_def)

lemma for_each_at_end:
  assumes "\<And>v a. v \<in> set vs \<Longrightarrow> I a \<Longrightarrow> at_end I (body v a)"
    and "I atom"
  shows "at_end I (for_each body vs atom)"
  using assms
proof (induction vs arbitrary: atom)
  case Nil
  then show ?case by simp
next
  case (Cons v vs)
  have b: "at_end I (body v atom)" using Cons.prems by simp
  show ?case
  proof (cases "body v atom")
    case (Inl p)
    then show ?thesis using b by simp
  next
    case (Inr a1)
    then have a1: "I a1" using b by simp
    have s1: "\<And>w a. w \<in> set vs \<Longrightarrow> I a \<Longrightarrow> at_end I (body w a)"
      using Cons.prems(1) by (meson list.set_intros(2))
    show ?thesis using Cons.IH [OF s1 a1] Inr by simp
  qed
qed

section \<open>What the builders leave alone\<close>


lemma same_but_list_trans: "same_but_list a b \<Longrightarrow> same_but_list b c \<Longrightarrow> same_but_list a c"
  unfolding same_but_list_def
  by (metis Atom.update_convs(6) Atom.update_convs(7) Atom.surjective Atom.select_convs)


lemma same_but_list_fields:
  assumes "same_but_list a a'"
  shows "number a' = number a" "numUpdates a' = numUpdates a" "MN a' = MN a"
    "cutoffNeighbor a' = cutoffNeighbor a" "box a' = box a"
    "x a' = x a" "y a' = y a" "z a' = z a" "x0 a' = x0 a" "y0 a' = y0 a" "z0 a' = z0 a"
proof -
  from assms have e: "a = a'\<lparr> NN := NN a, NL := NL a \<rparr>" by (simp add: same_but_list_def)
  from arg_cong [OF e, of number] show "number a' = number a" by simp
  from arg_cong [OF e, of numUpdates] show "numUpdates a' = numUpdates a" by simp
  from arg_cong [OF e, of MN] show "MN a' = MN a" by simp
  from arg_cong [OF e, of cutoffNeighbor] show "cutoffNeighbor a' = cutoffNeighbor a" by simp
  from arg_cong [OF e, of box] show "box a' = box a" by simp
  from arg_cong [OF e, of x] show "x a' = x a" by simp
  from arg_cong [OF e, of y] show "y a' = y a" by simp
  from arg_cong [OF e, of z] show "z a' = z a" by simp
  from arg_cong [OF e, of x0] show "x0 a' = x0 a" by simp
  from arg_cong [OF e, of y0] show "y0 a' = y0 a" by simp
  from arg_cong [OF e, of z0] show "z0 a' = z0 a" by simp
qed

lemma same_but_list_push: "same_but_list a (push_neighbor i j a)"
  by (simp add: same_but_list_def push_neighbor_def)

lemma same_but_list_fill: "same_but_list a (a\<lparr> NN := v \<rparr>)"
  by (simp add: same_but_list_def)

lemma same_but_list_push2:
  "same_but_list a0 a \<Longrightarrow> same_but_list a0 (push_neighbor j i (push_neighbor i j a))"
  by (blast intro: same_but_list_trans same_but_list_push)

lemma record_pair_frame: "same_but_list a0 a \<Longrightarrow> at_end (same_but_list a0) (record_pair i j a)"
  by (simp add: record_pair_def Let_def same_but_list_push2)





section \<open>Properties of the neighbour-list maintenance\<close>

lemma checkIfNeedUpdate_from_iff:
  "checkIfNeedUpdate_from atom ns \<longleftrightarrow> (\<exists>n \<in> set ns. displacementSquare atom n > 0.25)"
  by (induction ns) (auto simp: Let_def displacementSquare_def)

lemma checkIfNeedUpdate_iff:
  "checkIfNeedUpdate atom \<longleftrightarrow> (\<exists>n < number atom. displacementSquare atom n > 0.25)"
  by (auto simp: checkIfNeedUpdate_def checkIfNeedUpdate_from_iff)







lemma upt_small: "[0 ..< 1] = [0]" "[1 ..< 2] = [1]" "[0 ..< 2] = [0, 1]"
  "[Suc 0 ..< 2] = [Suc 0]" "[0 ..< Suc 0] = [0]"
  by (simp_all add: upt_conv_Cons)

lemma all_less_2: "(\<forall>n < (2::nat). P n) \<longleftrightarrow> P 0 \<and> P 1"
  by (auto simp: less_2_cases_iff)


lemma findNeighborON2_two:
  "number a = 2 \<Longrightarrow> findNeighborON2 a = visit_pair 0 1 (a\<lparr> NN := fill_zero 2 (NN a) \<rparr>)"
  by (simp add: findNeighborON2_def upt_small split: sum.splits)





section \<open>Recording a pair\<close>

lemma push_neighbor_fields:
  "NN (push_neighbor i j a) = (NN a)(i := NN a i + 1)"
  "NL (push_neighbor i j a) = (NL a)(i * MN a + NN a i := j)"
  "MN (push_neighbor i j a) = MN a"
  "number (push_neighbor i j a) = number a"
  by (simp_all add: push_neighbor_def)

lemma record_pair_Inl:
  assumes "record_pair i j a = Inl (e, a')"
  shows "a' = push_neighbor j i (push_neighbor i j a)"
    and "e = NeighborOverflow i (MN a) \<and> MN a < NN a' i
         \<or> e = NeighborOverflow j (MN a) \<and> MN a < NN a' j"
  using assms by (auto simp: record_pair_def Let_def push_neighbor_fields split: if_splits)

lemma record_pair_Inr:
  assumes "record_pair i j a = Inr a'"
  shows "a' = push_neighbor j i (push_neighbor i j a)" and "NN a' i \<le> MN a" and "NN a' j \<le> MN a"
  using assms by (auto simp: record_pair_def Let_def push_neighbor_fields split: if_splits)

text \<open>
  Claim C9. In the statements that record an accepted pair (the same in both builders)
  the two stores come before the two capacity checks. When the run ends there for an
  atom \<open>k\<close> whose list was full, the state at the end already holds both stores, and
  the store for \<open>k\<close> went to slot \<open>k * MN + MN\<close>: the first slot after the
  \<open>MN\<close> slots of \<open>k\<close>, and for the last atom the index \<open>number * MN\<close>, one past
  the last slot of \<open>NL\<close>.
\<close>

theorem record_pair_stores_before_check:
  assumes "i \<noteq> j" and "NN atom i \<le> MN atom" and "NN atom j \<le> MN atom"
    and "record_pair i j atom = Inl (e, a')"
  shows "\<exists>k. (k = i \<or> k = j) \<and> e = NeighborOverflow k (MN atom) \<and> NN atom k = MN atom
           \<and> a' = push_neighbor j i (push_neighbor i j atom)
           \<and> NL a' = ((NL atom)(i * MN atom + NN atom i := j))(j * MN atom + NN atom j := i)
           \<and> NN a' k = MN atom + 1
           \<and> k * MN atom + NN atom k = (k + 1) * MN atom
           \<and> (k + 1 = number atom \<longrightarrow> k * MN atom + NN atom k = number atom * MN atom)"
proof -
  from record_pair_Inl [OF assms(4)]
  have a': "a' = push_neighbor j i (push_neighbor i j atom)"
    and e: "e = NeighborOverflow i (MN atom) \<and> MN atom < NN a' i
         \<or> e = NeighborOverflow j (MN atom) \<and> MN atom < NN a' j" by simp_all
  have nn: "NN a' i = NN atom i + 1" "NN a' j = NN atom j + 1"
    using assms(1) by (simp_all add: a' push_neighbor_fields)
  have nl: "NL a' = ((NL atom)(i * MN atom + NN atom i := j))(j * MN atom + NN atom j := i)"
    using assms(1) by (simp add: a' push_neighbor_fields)
  have last: "k * MN atom + MN atom = number atom * MN atom" if "k + 1 = number atom" for k
  proof -
    from that have "number atom = Suc k" by simp
    then show ?thesis by simp
  qed
  from e show ?thesis
  proof
    assume "e = NeighborOverflow i (MN atom) \<and> MN atom < NN a' i"
    then have "e = NeighborOverflow i (MN atom)" "NN atom i = MN atom"
      using nn assms(2) by simp_all
    then show ?thesis using a' nl nn last [of i] by (intro exI [of _ i]) simp
  next
    assume "e = NeighborOverflow j (MN atom) \<and> MN atom < NN a' j"
    then have "e = NeighborOverflow j (MN atom)" "NN atom j = MN atom"
      using nn assms(3) by simp_all
    then show ?thesis using a' nl nn last [of j] by (intro exI [of _ j]) simp
  qed
qed

theorem record_pair_stores_before_check_witness:
  "(0::nat) \<noteq> 1 \<and> NN (last_full (two_atoms 15 1 1 1 2)) 0 \<le> MN (last_full (two_atoms 15 1 1 1 2))
   \<and> NN (last_full (two_atoms 15 1 1 1 2)) 1 \<le> MN (last_full (two_atoms 15 1 1 1 2))
   \<and> (\<exists>a'. record_pair 0 1 (last_full (two_atoms 15 1 1 1 2)) = Inl (NeighborOverflow 1 1, a')
         \<and> NL a' = (\<lambda>n. if n = 0 then 1 else if n = 2 then 0 else 5)
         \<and> number a' * MN a' = 2)"
proof -
  let ?W = "last_full (two_atoms 15 1 1 1 2)"
  have h: "(0::nat) \<noteq> 1" "NN ?W 0 \<le> MN ?W" "NN ?W 1 \<le> MN ?W"
    by (simp_all add: last_full_def two_atoms_def)
  have r: "record_pair 0 1 ?W = Inl (NeighborOverflow 1 1, push_neighbor 1 0 (push_neighbor 0 1 ?W))"
    by (simp add: record_pair_def Let_def push_neighbor_fields last_full_def two_atoms_def)
  from record_pair_stores_before_check [OF h r] h r show ?thesis
    by (auto simp: push_neighbor_fields last_full_def two_atoms_def fun_eq_iff)
qed

section \<open>Properties of the force kernels\<close>

lemma findNeighborON2_two_atoms:
  "findNeighborON2 (two_atoms 15 1000 1 1 5) = Inr (paired (two_atoms 15 1000 1 1 5))"
  by (simp add: findNeighborON2_two visit_pair_def micDistanceSquare_def applyMic_def
        applyMicOne_def record_pair_def push_neighbor_def Let_def fill_zero_def paired_def
        two_atoms_def cube_def fun_eq_iff)

lemma fold_unchanged: "(\<And>v s. v \<in> set vs \<Longrightarrow> f v s = s) \<Longrightarrow> s = t \<Longrightarrow> fold f vs s = t"
  by (induction vs arbitrary: s) simp_all

lemma find_fc_far: "2.1 \<le> d \<Longrightarrow> find_fc d = 0"
  by (simp add: find_fc_def)

text \<open>
  Claim C10. The divisor \<open>(1.0 + bzn) * zeta\<close> of the quotient stored in \<open>bp\<close> is
  not guarded. Whenever every slot of \<open>n1\<close> other than the bond itself holds an atom at
  distance 2.1 or more (in particular when \<open>n1\<close> has no other neighbour), \<open>zeta\<close> is
  zero, the divisor is zero, and the stored value is no real number.
\<close>

theorem bp_divisor_zero:
  assumes "\<forall>i2 < NN' L n1. NL' L (n1 * MN' L + i2) = NL' L (n1 * MN' L + i1)
             \<or> 2.1 \<le> norm3 (displacement atom L n1 (NL' L (n1 * MN' L + i2)))"
  shows "zeta_of atom L n1 i1 = 0 \<and> bp_divisor atom L n1 i1 = 0
       \<and> snd (find_b_and_bp_slot atom L n1 i1 bs) (n1 * MN' L + i1) = None"
proof -
  have z: "zeta_of atom L n1 i1 = 0"
    unfolding zeta_of_def Let_def
    by (rule fold_unchanged) (use assms in \<open>auto simp: find_fc_far\<close>)
  then show ?thesis
    by (simp add: bp_divisor_def find_b_and_bp_slot_def Let_def quotient_def)
qed

theorem bp_divisor_zero_witness:
  "NN' dimer 0 = 1
   \<and> zeta_of (two_atoms 15 1 1 1 2.5) dimer 0 0 = 0
   \<and> bp_divisor (two_atoms 15 1 1 1 2.5) dimer 0 0 = 0
   \<and> snd (find_b_and_bp (two_atoms 15 1 1 1 2.5) dimer (\<lambda>s. 0, \<lambda>s. Some 0)) 0 = None"
proof -
  define A where "A = two_atoms 15 1 1 1 2.5"
  have h: "\<forall>i2 < NN' dimer 0. NL' dimer (0 * MN' dimer + i2) = NL' dimer (0 * MN' dimer + 0)
       \<or> 2.1 \<le> norm3 (displacement A dimer 0 (NL' dimer (0 * MN' dimer + i2)))"
    by (simp add: dimer_def)
  define bs :: "(nat \<Rightarrow> real) \<times> (nat \<Rightarrow> real option)" where "bs = (\<lambda>s. 0, \<lambda>s. Some 0)"
  have f: "find_b_and_bp A dimer bs
         = find_b_and_bp_slot A dimer 1 0 (find_b_and_bp_slot A dimer 0 0 bs)"
    by (simp add: find_b_and_bp_def dimer_def upt_small)
  have s: "snd (find_b_and_bp_slot A dimer (Suc 0) 0 cs) 0 = snd cs 0" for cs
    by (simp add: find_b_and_bp_slot_def Let_def dimer_def)
  from bp_divisor_zero [OF h, of bs]
  have z: "zeta_of A dimer 0 0 = 0" and d: "bp_divisor A dimer 0 0 = 0"
    and n: "snd (find_b_and_bp_slot A dimer 0 0 bs) 0 = None" by simp_all
  from n have "snd (find_b_and_bp A dimer bs) 0 = None" by (simp add: f s)
  moreover have "NN' dimer 0 = 1" by (simp add: dimer_def)
  ultimately show ?thesis using z d unfolding A_def bs_def by blast
qed


lemma lj_pe_16: "lj_pe 16 = 4 * epsilon * ((sigma / 4) ^ 12 - (sigma / 4) ^ 6)"
  by (simp add: lj_pe_def Let_def e4s12_def e4s6_def sigma12_def sigma6_def sigma3_def
        sigma_def epsilon_def power_divide)

lemma lj_nonzero: "lj_f_ij 16 \<noteq> 0" "lj_pe 16 \<noteq> 0"
  by (simp_all add: lj_f_ij_def lj_pe_def Let_def e24s6_def e48s12_def e4s12_def e4s6_def
        sigma12_def sigma6_def sigma3_def sigma_def epsilon_def)

lemma findForce_slot_paired:
  assumes "box a = cube 15" "MN a = 1000" "NL a = (\<lambda>s. if s = 0 then 1 else 0)"
    "x a = (\<lambda>n. if n = 0 then 1 else 5)" "y a = (\<lambda>n. 1)" "z a = (\<lambda>n. 1)"
  shows "findForce_slot 0 0 a
           = a\<lparr> fx := (fx a)(0 := fx a 0 + lj_f_ij 16 * 4, 1 := fx a 1 - lj_f_ij 16 * 4),
                 fy := (fy a)(0 := fy a 0 + lj_f_ij 16 * 0, 1 := fy a 1 - lj_f_ij 16 * 0),
                 fz := (fz a)(0 := fz a 0 + lj_f_ij 16 * 0, 1 := fz a 1 - lj_f_ij 16 * 0),
                 pe := (pe a)(0 := pe a 0 + lj_pe 16) \<rparr>"
    and "findForce_slot 1 0 a
           = a\<lparr> fx := (fx a)(1 := fx a 1 + lj_f_ij 16 * (- 4), 0 := fx a 0 - lj_f_ij 16 * (- 4)),
                 fy := (fy a)(1 := fy a 1 + lj_f_ij 16 * 0, 0 := fy a 0 - lj_f_ij 16 * 0),
                 fz := (fz a)(1 := fz a 1 + lj_f_ij 16 * 0, 0 := fz a 0 - lj_f_ij 16 * 0),
                 pe := (pe a)(1 := pe a 1 + lj_pe 16) \<rparr>"
  using assms
  by (simp_all add: findForce_slot_def Let_def applyMic_def applyMicOne_def cube_def cutoff_def)

text \<open>
  Claim C1 fails on the code. For two atoms 4 apart, \<open>findNeighborON2\<close> builds the
  symmetric list in which each atom is in the other's list. \<open>findForce\<close> then visits
  the pair from both atoms and each visit adds the pair force to the visiting atom and
  subtracts it from the other: the force on atom 0 is twice \<open>f_ij * xij\<close>, and the
  sum of the per-atom energies is twice the pair potential.
\<close>

theorem findForce_counts_pair_twice:
  "findNeighborON2 (two_atoms 15 1000 1 1 5) = Inr (paired (two_atoms 15 1000 1 1 5))
   \<and> fx (findForce (paired (two_atoms 15 1000 1 1 5))) 0 = 2 * (lj_f_ij 16 * 4)
   \<and> fx (findForce (paired (two_atoms 15 1000 1 1 5))) 1 = - (2 * (lj_f_ij 16 * 4))
   \<and> totalPe (findForce (paired (two_atoms 15 1000 1 1 5))) = 2 * lj_pe 16
   \<and> lj_f_ij 16 \<noteq> 0 \<and> lj_pe 16 \<noteq> 0
   \<and> lj_pe 16 = 4 * epsilon * ((sigma / 4) ^ 12 - (sigma / 4) ^ 6)"
proof -
  define P where "P = paired (two_atoms 15 1000 1 1 5)"
  define P0 where "P0 = P\<lparr> fx := zeroReal 2 (fx P), fy := zeroReal 2 (fy P),
                            fz := zeroReal 2 (fz P), pe := zeroReal 2 (pe P) \<rparr>"
  have P: "number P = 2" "NN P 0 = 1" "NN P 1 = 1"
    by (simp_all add: P_def paired_def two_atoms_def)
  have P0: "box P0 = cube 15" "MN P0 = 1000" "NL P0 = (\<lambda>s. if s = 0 then 1 else 0)"
    "x P0 = (\<lambda>n. if n = 0 then 1 else 5)" "y P0 = (\<lambda>n. 1)" "z P0 = (\<lambda>n. 1)"
    "NN P0 = (\<lambda>n. if n < 2 then 1 else 0)" "number P0 = 2"
    by (simp_all add: P0_def P_def paired_def two_atoms_def)
  have z: "fx P0 = (\<lambda>n. 0)" "pe P0 = (\<lambda>n. 0)"
    by (simp_all add: P0_def P_def paired_def two_atoms_def zeroReal_def fun_eq_iff)
  let ?a1 = "findForce_slot 0 0 P0"
  have a1: "box ?a1 = cube 15" "MN ?a1 = 1000" "NL ?a1 = (\<lambda>s. if s = 0 then 1 else 0)"
    "x ?a1 = (\<lambda>n. if n = 0 then 1 else 5)" "y ?a1 = (\<lambda>n. 1)" "z ?a1 = (\<lambda>n. 1)" "NN ?a1 = (\<lambda>n. if n < 2 then 1 else 0)"
    "number ?a1 = 2"
    by (simp_all add: findForce_slot_paired(1) [OF P0(1-6)] P0)
  have f: "findForce P = findForce_slot 1 0 ?a1"
    by (simp add: findForce_def Let_def P upt_small P0_def [symmetric] P0 a1)
  have r: "fx (findForce P) 0 = 2 * (lj_f_ij 16 * 4)" "fx (findForce P) 1 = - (2 * (lj_f_ij 16 * 4))"
    "pe (findForce P) 0 = lj_pe 16" "pe (findForce P) 1 = lj_pe 16" "number (findForce P) = 2"
    unfolding f findForce_slot_paired(2) [OF a1(1-6)]
    by (simp_all add: findForce_slot_paired(1) [OF P0(1-6)] z a1 P0)
  have r': "pe (findForce P) (Suc 0) = lj_pe 16" using r(4) by simp
  have t: "totalPe (findForce P) = 2 * lj_pe 16"
    by (simp add: totalPe_def r r' numeral_2_eq_2)
  show ?thesis
    using r t lj_nonzero lj_pe_16 findNeighborON2_two_atoms unfolding P_def by simp
qed

section \<open>Sequences of recorded pairs\<close>

lemma for_each_append:
  "for_each f (vs @ ws) a = (case for_each f vs a of Inl e \<Rightarrow> Inl e | Inr a' \<Rightarrow> for_each f ws a')"
  by (induction vs arbitrary: a) (auto split: sum.splits)

lemma for_each_map: "for_each f (map g vs) a = for_each (\<lambda>v. f (g v)) vs a"
  by (induction vs arbitrary: a) (auto split: sum.splits)

lemma for_each_nested:
  "for_each (\<lambda>i. for_each (f i) (ws i)) vs a
     = for_each (\<lambda>p. f (fst p) (snd p)) (concat (map (\<lambda>i. map (Pair i) (ws i)) vs)) a"
  by (induction vs arbitrary: a) (auto simp: for_each_append for_each_map split: sum.splits)

lemma for_each_cong:
  "(\<And>v a. v \<in> set vs \<Longrightarrow> f v a = g v a) \<Longrightarrow> for_each f vs a = for_each g vs a"
  by (induction vs arbitrary: a) (auto split: sum.splits)

lemma record_all_simps [simp]:
  "record_all [] a = Inr a"
  "record_all (p # ps) a =
     (case record_pair (fst p) (snd p) a of Inl e \<Rightarrow> Inl e | Inr a' \<Rightarrow> record_all ps a')"
  by (simp_all add: record_all_def split: sum.splits)

lemma record_all_append:
  "record_all (ps @ qs) a = (case record_all ps a of Inl e \<Rightarrow> Inl e | Inr a' \<Rightarrow> record_all qs a')"
  by (simp add: record_all_def for_each_append split: sum.splits)

lemma partners_simps [simp]:
  "partners [] i = []"
  "partners (p # ps) i =
     (if fst p = i then [snd p] else if snd p = i then [fst p] else []) @ partners ps i"
  by (simp_all add: partners_def)

lemma partners_append: "partners (ps @ qs) i = partners ps i @ partners qs i"
  by (simp add: partners_def)

lemma set_partners:
  "set (partners ps i) = {j. (i, j) \<in> set ps \<or> (j, i) \<in> set ps}"
  by (induction ps) (auto simp: partners_def)

lemma distinct_partners:
  assumes "distinct ps" and "\<forall>p \<in> set ps. fst p < snd p"
  shows "distinct (partners ps i)"
  using assms
proof (induction ps)
  case Nil
  then show ?case by simp
next
  case (Cons p ps)
  obtain u v where p: "p = (u, v)" by (cases p)
  from Cons.prems have uv: "u < v" and notin: "(u, v) \<notin> set ps"
    and ord: "\<forall>q \<in> set ps. fst q < snd q" and d: "distinct ps"
    by (auto simp: p)
  have 1: "(v, u) \<notin> set ps" using ord uv by fastforce
  have ih: "distinct (partners ps i)" using Cons.IH d ord by simp
  show ?case using ih notin 1 uv by (auto simp: p set_partners)
qed


lemma stride_unique:
  fixes m :: nat
  assumes "s < m" and "t < m" and "i * m + s = p * m + t"
  shows "i = p"
proof -
  have "(i * m + s) div m = i" "(p * m + t) div m = p" using assms(1,2) by simp_all
  with assms(3) show ?thesis by simp
qed

lemma neighbours_push:
  assumes "NN a p < MN a" and "NN a i \<le> MN a"
  shows "neighbours (push_neighbor p q a) i
           = (if i = p then neighbours a p @ [q] else neighbours a i)"
proof (cases "i = p")
  case True
  then show ?thesis by (simp add: neighbours_def push_neighbor_fields)
next
  case False
  have "NL (push_neighbor p q a) (i * MN a + s) = NL a (i * MN a + s)" if "s < NN a i" for s
  proof -
    from that assms(2) have "s < MN a" by simp
    with assms(1) False have "i * MN a + s \<noteq> p * MN a + NN a p"
      using stride_unique [of s "MN a" "NN a p" i p] by blast
    then show ?thesis by (simp add: push_neighbor_fields)
  qed
  with False show ?thesis by (simp add: neighbours_def push_neighbor_fields)
qed

lemma record_pair_Inr_effect:
  assumes r: "record_pair i j a = Inr a'" and ij: "i \<noteq> j"
    and le: "NN a k \<le> MN a"
  shows "MN a' = MN a"
    and "NN a' k = NN a k + length (partners [(i, j)] k)"
    and "NN a' k \<le> MN a"
    and "neighbours a' k = neighbours a k @ partners [(i, j)] k"
proof -
  note a' = record_pair_Inr(1) [OF r]
  have nn: "NN a' = (NN a)(i := NN a i + 1, j := NN a j + 1)"
    using ij by (simp add: a' push_neighbor_fields fun_eq_iff)
  have i: "NN a i < MN a" and j: "NN a j < MN a"
    using record_pair_Inr(2,3) [OF r] nn ij by simp_all
  show "MN a' = MN a" by (simp add: a' push_neighbor_fields)
  show "NN a' k = NN a k + length (partners [(i, j)] k)" by (simp add: nn)
  show "NN a' k \<le> MN a" using i j le by (simp add: nn)
  let ?a1 = "push_neighbor i j a"
  have 1: "neighbours ?a1 k = (if k = i then neighbours a i @ [j] else neighbours a k)"
    by (rule neighbours_push [OF i le])
  have j1: "NN ?a1 j < MN ?a1" using j ij by (simp add: push_neighbor_fields)
  have k1: "NN ?a1 k \<le> MN ?a1" using i le by (simp add: push_neighbor_fields)
  have 2: "neighbours a' k = (if k = j then neighbours ?a1 j @ [i] else neighbours ?a1 k)"
    unfolding a' by (rule neighbours_push [OF j1 k1])
  have 3: "neighbours ?a1 j = neighbours a j"
    using neighbours_push [OF i, of j j] j ij by simp
  show "neighbours a' k = neighbours a k @ partners [(i, j)] k"
    using ij by (simp add: 1 2 3)
qed

lemma record_all_Inr:
  assumes "record_all ps a = Inr a'"
    and "\<forall>p \<in> set ps. fst p \<noteq> snd p"
    and "NN a k \<le> MN a"
  shows "MN a' = MN a \<and> NN a' k = NN a k + length (partners ps k) \<and> NN a' k \<le> MN a
       \<and> neighbours a' k = neighbours a k @ partners ps k"
  using assms
proof (induction ps arbitrary: a)
  case Nil
  then show ?case by simp
next
  case (Cons p ps)
  obtain i j where p: "p = (i, j)" by (cases p)
  from Cons.prems(1) obtain a1 where r: "record_pair i j a = Inr a1"
    and rest: "record_all ps a1 = Inr a'"
    by (auto simp: p split: sum.splits)
  from Cons.prems(2) have ij: "i \<noteq> j" and ps: "\<forall>p \<in> set ps. fst p \<noteq> snd p"
    by (simp_all add: p)
  note e = record_pair_Inr_effect [OF r ij Cons.prems(3)]
  have k1: "NN a1 k \<le> MN a1" using e by simp
  from Cons.IH [OF rest ps k1] e show ?case
    by (simp add: p partners_def)
qed

lemma record_all_Inl:
  assumes "record_all ps a = Inl (e, a')"
    and "\<forall>p \<in> set ps. fst p \<noteq> snd p"
    and "\<forall>k. k \<in> fst ` set ps \<union> snd ` set ps \<longrightarrow> NN a k \<le> MN a"
  shows "\<exists>k \<in> fst ` set ps \<union> snd ` set ps. e = NeighborOverflow k (MN a) \<and> NN a' k = MN a + 1"
  using assms
proof (induction ps arbitrary: a)
  case Nil
  then show ?case by simp
next
  case (Cons p ps)
  obtain i j where p: "p = (i, j)" by (cases p)
  from Cons.prems(2) have ij: "i \<noteq> j" and ps: "\<forall>p \<in> set ps. fst p \<noteq> snd p"
    by (simp_all add: p)
  have lei: "NN a i \<le> MN a" and lej: "NN a j \<le> MN a" using Cons.prems(3) by (auto simp: p)
  show ?case
  proof (cases "record_pair i j a")
    case (Inl q)
    with Cons.prems(1) have r: "record_pair i j a = Inl (e, a')" by (simp add: p)
    note a' = record_pair_Inl(1) [OF r]
    have nn: "NN a' i = NN a i + 1" "NN a' j = NN a j + 1"
      using ij by (simp_all add: a' push_neighbor_fields)
    from record_pair_Inl(2) [OF r] nn lei lej
    have "e = NeighborOverflow i (MN a) \<and> NN a' i = MN a + 1
        \<or> e = NeighborOverflow j (MN a) \<and> NN a' j = MN a + 1" by auto
    then show ?thesis by (auto simp: p)
  next
    case (Inr a1)
    with Cons.prems(1) have rest: "record_all ps a1 = Inl (e, a')" by (simp add: p)
    have k1: "\<forall>k. k \<in> fst ` set ps \<union> snd ` set ps \<longrightarrow> NN a1 k \<le> MN a1"
    proof (intro allI impI)
      fix k assume "k \<in> fst ` set ps \<union> snd ` set ps"
      then have "NN a k \<le> MN a" using Cons.prems(3) by auto
      from record_pair_Inr_effect(1,3) [OF Inr ij this] show "NN a1 k \<le> MN a1" by simp
    qed
    have m: "MN a1 = MN a" using record_pair_Inr_effect(1) [OF Inr ij lei] .
    from Cons.IH [OF rest ps k1] show ?thesis by (auto simp: p m)
  qed
qed

lemma record_all_succeeds:
  assumes "\<forall>p \<in> set ps. fst p \<noteq> snd p"
    and "\<forall>k. NN a k + length (partners ps k) \<le> MN a \<or> k \<notin> fst ` set ps \<union> snd ` set ps"
  shows "\<exists>a'. record_all ps a = Inr a'"
  using assms
proof (induction ps arbitrary: a)
  case Nil
  then show ?case by simp
next
  case (Cons p ps)
  obtain i j where p: "p = (i, j)" by (cases p)
  from Cons.prems(1) have ij: "i \<noteq> j" and ps: "\<forall>p \<in> set ps. fst p \<noteq> snd p"
    by (simp_all add: p)
  have i: "NN a i < MN a" using Cons.prems(2) [rule_format, of i] ij by (auto simp: p)
  have j: "NN a j < MN a" using Cons.prems(2) [rule_format, of j] ij by (auto simp: p)
  have r: "record_pair i j a = Inr (push_neighbor j i (push_neighbor i j a))"
    using i j ij by (simp add: record_pair_def Let_def push_neighbor_fields)
  let ?a1 = "push_neighbor j i (push_neighbor i j a)"
  have k1: "\<forall>k. NN ?a1 k + length (partners ps k) \<le> MN ?a1 \<or> k \<notin> fst ` set ps \<union> snd ` set ps"
  proof
    fix k
    from Cons.prems(2) [rule_format, of k]
    show "NN ?a1 k + length (partners ps k) \<le> MN ?a1 \<or> k \<notin> fst ` set ps \<union> snd ` set ps"
      using ij by (auto simp: p push_neighbor_fields)
  qed
  from Cons.IH [OF ps k1] r show ?case by (simp add: p)
qed

section \<open>The all-pairs builder\<close>

lemma applyMicOne_minus: "applyMicOne (- s) = - applyMicOne s"
  by (simp add: applyMicOne_def)

lemma applyMic_minus:
  "applyMic b (- u, - v, - w) = (case applyMic b (u, v, w) of (p, q, r) \<Rightarrow> (- p, - q, - r))"
proof -
  have e: "b 9 * - u + b 10 * - v + b 11 * - w = - (b 9 * u + b 10 * v + b 11 * w)"
    "b 12 * - u + b 13 * - v + b 14 * - w = - (b 12 * u + b 13 * v + b 14 * w)"
    "b 15 * - u + b 16 * - v + b 17 * - w = - (b 15 * u + b 16 * v + b 17 * w)"
    by simp_all
  show ?thesis
    unfolding applyMic_def Let_def prod.case e applyMicOne_minus by simp
qed

lemma micDistanceSquare_sym: "micDistanceSquare a i j = micDistanceSquare a j i"
proof -
  have m: "x a i - x a j = - (x a j - x a i)" "y a i - y a j = - (y a j - y a i)"
    "z a i - z a j = - (z a j - z a i)" by simp_all
  show ?thesis
    unfolding micDistanceSquare_def m applyMic_minus by (simp split: prod.splits)
qed

lemma within_cutoff_sym: "within_cutoff a i j \<longleftrightarrow> within_cutoff a j i"
  by (simp add: within_cutoff_def micDistanceSquare_sym)

lemma within_cutoff_frame:
  assumes "same_but_list a0 a"
  shows "within_cutoff a i j \<longleftrightarrow> within_cutoff a0 i j"
  using same_but_list_fields [OF assms]
  by (simp add: within_cutoff_def micDistanceSquare_def)

lemma visit_pair_eq:
  "visit_pair i j a = (if within_cutoff a i j then record_pair i j a else Inr a)"
  by (simp add: visit_pair_def within_cutoff_def Let_def)

lemma visit_all:
  assumes "same_but_list a0 a"
  shows "for_each (\<lambda>p. visit_pair (fst p) (snd p)) ps a
           = record_all (filter (\<lambda>p. within_cutoff a0 (fst p) (snd p)) ps) a"
  using assms
proof (induction ps arbitrary: a)
  case Nil
  then show ?case by simp
next
  case (Cons p ps)
  have v: "visit_pair (fst p) (snd p) a
      = (if within_cutoff a0 (fst p) (snd p) then record_pair (fst p) (snd p) a else Inr a)"
    by (simp add: visit_pair_eq within_cutoff_frame [OF Cons.prems])
  show ?case
  proof (cases "within_cutoff a0 (fst p) (snd p)")
    case False
    then show ?thesis using Cons.IH [OF Cons.prems] by (simp add: v)
  next
    case True
    show ?thesis
    proof (cases "record_pair (fst p) (snd p) a")
      case (Inl e)
      then show ?thesis using True by (simp add: v)
    next
      case (Inr a1)
      then have "same_but_list a0 a1"
        using record_pair_frame [OF Cons.prems, of "fst p" "snd p"] by simp
      from Cons.IH [OF this] Inr True show ?thesis by (simp add: v)
    qed
  qed
qed

lemma findNeighborON2_eq:
  "findNeighborON2 a
     = record_all (filter (\<lambda>p. within_cutoff a (fst p) (snd p)) (all_pairs (number a))) (cleared a)"
proof -
  have s: "same_but_list a (cleared a)" by (simp add: cleared_def same_but_list_fill)
  show ?thesis
    unfolding findNeighborON2_def for_each_nested all_pairs_def [symmetric] cleared_def [symmetric]
    by (rule visit_all [OF s])
qed

lemma in_all_pairs: "(i, j) \<in> set (all_pairs n) \<longleftrightarrow> i < j \<and> j < n"
proof
  assume "(i, j) \<in> set (all_pairs n)"
  then show "i < j \<and> j < n" by (auto simp: all_pairs_def)
next
  assume "i < j \<and> j < n"
  then have "i \<in> {0 ..< n - 1}" "(i, j) \<in> Pair i ` {i + 1 ..< n}" by auto
  then have "(i, j) \<in> (\<Union>u \<in> {0 ..< n - 1}. Pair u ` {u + 1 ..< n})" by (rule UN_I)
  then show "(i, j) \<in> set (all_pairs n)" by (simp add: all_pairs_def)
qed

lemma distinct_all_pairs: "distinct (all_pairs n)"
  unfolding all_pairs_def
proof (rule distinct_concat)
  show "distinct (map (\<lambda>i. map (Pair i) [i + 1 ..< n]) [0 ..< n - 1])"
  proof (simp add: distinct_map, rule inj_onI)
    fix u v assume u: "u \<in> {0 ..< n - Suc 0}" and v: "v \<in> {0 ..< n - Suc 0}"
      and e: "map (Pair u) [Suc u ..< n] = map (Pair v) [Suc v ..< n]"
    from u v have "[Suc u ..< n] = Suc u # [Suc (Suc u) ..< n]" "[Suc v ..< n] = Suc v # [Suc (Suc v) ..< n]"
      by (simp_all add: upt_conv_Cons)
    with e show "u = v" by simp
  qed
  show "\<And>ys. ys \<in> set (map (\<lambda>i. map (Pair i) [i + 1 ..< n]) [0 ..< n - 1]) \<Longrightarrow> distinct ys"
    by (auto simp: distinct_map inj_on_def)
  fix ys zs
  assume "ys \<in> set (map (\<lambda>i. map (Pair i) [i + 1 ..< n]) [0 ..< n - 1])"
    and "zs \<in> set (map (\<lambda>i. map (Pair i) [i + 1 ..< n]) [0 ..< n - 1])" and ne: "ys \<noteq> zs"
  then obtain u v where ys: "ys = map (Pair u) [u + 1 ..< n]" and zs: "zs = map (Pair v) [v + 1 ..< n]"
    by (auto simp: image_iff)
  from ne have "u \<noteq> v" unfolding ys zs by blast
  then show "set ys \<inter> set zs = {}" unfolding ys zs set_map by blast
qed

lemma outcome_is_simps [simp]:
  "outcome_is I E (Inr a') = I a'" "outcome_is I E (Inl ea) = E ea"
  by (simp_all add: outcome_is_def)

lemma for_each_outcome:
  assumes "\<And>v a. v \<in> set vs \<Longrightarrow> I a \<Longrightarrow> outcome_is I E (body v a)"
    and "I atom"
  shows "outcome_is I E (for_each body vs atom)"
  using assms
proof (induction vs arbitrary: atom)
  case Nil
  then show ?case by simp
next
  case (Cons v vs)
  have b: "outcome_is I E (body v atom)" using Cons.prems by simp
  show ?case
  proof (cases "body v atom")
    case (Inl ea)
    then show ?thesis using b by simp
  next
    case (Inr a1)
    then have a1: "I a1" using b by simp
    have s1: "\<And>w a. w \<in> set vs \<Longrightarrow> I a \<Longrightarrow> outcome_is I E (body w a)"
      using Cons.prems(1) by (meson list.set_intros(2))
    show ?thesis using Cons.IH [OF s1 a1] Inr by simp
  qed
qed

lemma cleared_fields:
  "MN (cleared a) = MN a" "number (cleared a) = number a"
  "k < number a \<Longrightarrow> NN (cleared a) k = 0"
  "k < number a \<Longrightarrow> neighbours (cleared a) k = []"
  "same_but_list a (cleared a)"
  by (simp_all add: cleared_def fill_zero_def neighbours_def same_but_list_fill)

lemma record_all_frame: "same_but_list a0 a \<Longrightarrow> at_end (same_but_list a0) (record_all ps a)"
  unfolding record_all_def by (intro for_each_at_end record_pair_frame)

text \<open>What a state reached by recording true pairs from the cleared state looks like.\<close>

lemma recorded_state:
  assumes r: "record_all ps (cleared a) = Inr a'" and t: "\<forall>p \<in> set ps. true_pair a p"
    and k: "k < number a"
  shows "neighbours a' k = partners ps k" and "NN a' k = length (partners ps k)"
    and "NN a' k \<le> MN a" and "MN a' = MN a" and "same_but_list a a'"
proof -
  from t have ne: "\<forall>p \<in> set ps. fst p \<noteq> snd p" by (auto simp: true_pair_def)
  have z: "NN (cleared a) k \<le> MN (cleared a)" using k by (simp add: cleared_fields)
  from record_all_Inr [OF r ne z]
  show "neighbours a' k = partners ps k" "NN a' k = length (partners ps k)"
    "NN a' k \<le> MN a" "MN a' = MN a"
    using k by (simp_all add: cleared_fields)
  from record_all_frame [OF cleared_fields(5), of a ps] r show "same_but_list a a'" by simp
qed

lemma recorded_fatal:
  assumes r: "record_all ps (cleared a) = Inl ea" and t: "\<forall>p \<in> set ps. true_pair a p"
  shows "overflow_reported a ea"
proof -
  obtain e a' where ea: "ea = (e, a')" by (cases ea)
  from t have ne: "\<forall>p \<in> set ps. fst p \<noteq> snd p"
    and lt: "\<forall>p \<in> set ps. fst p < number a \<and> snd p < number a"
    by (auto simp: true_pair_def)
  have z: "\<forall>k. k \<in> fst ` set ps \<union> snd ` set ps \<longrightarrow> NN (cleared a) k \<le> MN (cleared a)"
    using lt by (auto simp: cleared_fields)
  from record_all_Inl [OF r [unfolded ea] ne z] lt show ?thesis
    by (auto simp: overflow_reported_def ea cleared_fields)
qed

section \<open>What the all-pairs builder records\<close>

lemma true_pairs_ON2:
  "\<forall>p \<in> set (filter (\<lambda>p. within_cutoff a (fst p) (snd p)) (all_pairs (number a))). true_pair a p"
  by (auto simp: true_pair_def in_all_pairs)

lemma partners_ON2:
  assumes "i < number a"
  shows "set (partners (filter (\<lambda>p. within_cutoff a (fst p) (snd p)) (all_pairs (number a))) i)
           = true_neighbours a i"
    and "distinct (partners (filter (\<lambda>p. within_cutoff a (fst p) (snd p)) (all_pairs (number a))) i)"
proof -
  show "set (partners (filter (\<lambda>p. within_cutoff a (fst p) (snd p)) (all_pairs (number a))) i)
           = true_neighbours a i"
    using assms within_cutoff_sym [of a]
    by (auto simp: set_partners in_all_pairs true_neighbours_def)
  show "distinct (partners (filter (\<lambda>p. within_cutoff a (fst p) (snd p)) (all_pairs (number a))) i)"
    by (rule distinct_partners) (auto simp: distinct_all_pairs in_all_pairs)
qed

lemma length_partners_ON2:
  assumes "i < number a"
  shows "length (partners (filter (\<lambda>p. within_cutoff a (fst p) (snd p)) (all_pairs (number a))) i)
           = card (true_neighbours a i)"
  using partners_ON2 [OF assms] distinct_card by fastforce

lemma findNeighborON2_Inr:
  assumes "findNeighborON2 a = Inr a'" and "i < number a"
  shows "set (neighbours a' i) = true_neighbours a i" and "distinct (neighbours a' i)"
    and "NN a' i = card (true_neighbours a i)" and "NN a' i \<le> MN a"
  using recorded_state [OF assms(1) [unfolded findNeighborON2_eq] true_pairs_ON2 assms(2)]
    partners_ON2 [OF assms(2)] length_partners_ON2 [OF assms(2)]
  by simp_all

lemma findNeighborON2_Inl:
  assumes "findNeighborON2 a = Inl ea"
  shows "overflow_reported a ea"
  using recorded_fatal [OF assms [unfolded findNeighborON2_eq] true_pairs_ON2] .

lemma findNeighborON2_overflow:
  assumes "i < number a" and "MN a < card (true_neighbours a i)"
  shows "\<exists>ea. findNeighborON2 a = Inl ea \<and> overflow_reported a ea"
proof (cases "findNeighborON2 a")
  case (Inl ea)
  then show ?thesis using findNeighborON2_Inl by blast
next
  case (Inr a')
  from findNeighborON2_Inr(3,4) [OF Inr assms(1)] assms(2) show ?thesis by simp
qed

lemma findNeighborON2_succeeds:
  assumes "\<forall>i < number a. card (true_neighbours a i) \<le> MN a"
  shows "\<exists>a'. findNeighborON2 a = Inr a'"
  unfolding findNeighborON2_eq
proof (rule record_all_succeeds)
  let ?ps = "filter (\<lambda>p. within_cutoff a (fst p) (snd p)) (all_pairs (number a))"
  show "\<forall>p \<in> set ?ps. fst p \<noteq> snd p" by (auto simp: in_all_pairs)
  show "\<forall>k. NN (cleared a) k + length (partners ?ps k) \<le> MN (cleared a)
          \<or> k \<notin> fst ` set ?ps \<union> snd ` set ?ps"
  proof
    fix k
    show "NN (cleared a) k + length (partners ?ps k) \<le> MN (cleared a)
          \<or> k \<notin> fst ` set ?ps \<union> snd ` set ?ps"
    proof (cases "k < number a")
      case True
      then show ?thesis using assms by (simp add: cleared_fields length_partners_ON2)
    next
      case False
      then have "k \<notin> fst ` set ?ps \<union> snd ` set ?ps" by (auto simp: in_all_pairs)
      then show ?thesis by simp
    qed
  qed
qed

section \<open>What the cell-linked builder records\<close>

lemma recorded_cleared: "recorded a (cleared a)"
  unfolding recorded_def by (rule exI [of _ "[]"]) simp

lemma visit_pair_outcome:
  assumes I: "recorded a a1" and n: "n1 < n2" "n2 < number a"
  shows "outcome_is (recorded a) (builder_fatal a) (visit_pair n1 n2 a1)"
proof -
  from I obtain ps where ps: "record_all ps (cleared a) = Inr a1" and t: "\<forall>p \<in> set ps. true_pair a p"
    by (auto simp: recorded_def)
  have fr: "same_but_list a a1"
    using record_all_frame [OF cleared_fields(5), of a ps] ps by simp
  show ?thesis
  proof (cases "within_cutoff a n1 n2")
    case False
    then show ?thesis using I by (simp add: visit_pair_eq within_cutoff_frame [OF fr])
  next
    case True
    have v: "visit_pair n1 n2 a1 = record_pair n1 n2 a1"
      using True by (simp add: visit_pair_eq within_cutoff_frame [OF fr])
    have t': "\<forall>p \<in> set (ps @ [(n1, n2)]). true_pair a p"
      using t True n by (auto simp: true_pair_def)
    have r: "record_all (ps @ [(n1, n2)]) (cleared a) = record_pair n1 n2 a1"
      by (simp add: record_all_append ps split: sum.splits)
    show ?thesis
    proof (cases "record_pair n1 n2 a1")
      case (Inl ea)
      with r have "record_all (ps @ [(n1, n2)]) (cleared a) = Inl ea" by simp
      from recorded_fatal [OF this t'] show ?thesis by (simp add: v Inl builder_fatal_def)
    next
      case (Inr a2)
      with r have "record_all (ps @ [(n1, n2)]) (cleared a) = Inr a2" by simp
      with t' have "recorded a a2" unfolding recorded_def by blast
      then show ?thesis by (simp add: v Inr)
    qed
  qed
qed

lemma scatterCells_bound:
  assumes "scatterCells cellOf ccs ns (cc, cts) = Some (cc', cts')"
    and "\<forall>c \<in> set cts. c < N" and "\<forall>n \<in> set ns. n < N"
  shows "\<forall>c \<in> set cts'. c < N"
  using assms
proof (induction ns arbitrary: cc cts)
  case Nil
  then show ?case by simp
next
  case (Cons n ns)
  from Cons.prems(1) obtain s c where
    rest: "scatterCells cellOf ccs ns (cc[nat (cellOf n) := c + 1], cts[s + c := n]) = Some (cc', cts')"
    by (auto split: option.splits if_splits)
  have "\<forall>c \<in> set (cts[s + c := n]). c < N"
    using Cons.prems(2,3) set_update_subset_insert [of cts "s + c" n] by auto
  from Cons.IH [OF rest this] Cons.prems(3) show ?case by simp
qed

lemma scanCell_outcome:
  assumes "recorded a a1" and "n1 < number a" and "\<forall>c \<in> set cts. c < number a"
  shows "outcome_is (recorded a) (builder_fatal a) (scanCell cc ccs cts n1 nb a1)"
proof (cases "read_at cc nb")
  case None
  then show ?thesis by (simp add: scanCell_def builder_fatal_def)
next
  case (Some cnt)
  have "outcome_is (recorded a) (builder_fatal a)
     (case read_at ccs nb of None \<Rightarrow> Inl (OutOfBounds, a2)
      | Some s \<Rightarrow> (case read_at cts (int (s + m)) of None \<Rightarrow> Inl (OutOfBounds, a2)
          | Some n2 \<Rightarrow> if n1 < n2 then visit_pair n1 n2 a2 else Inr a2))"
    if "recorded a a2" for m a2
  proof (cases "read_at ccs nb")
    case None
    then show ?thesis by (simp add: builder_fatal_def)
  next
    case s: (Some s)
    show ?thesis
    proof (cases "read_at cts (int (s + m))")
      case None
      then show ?thesis by (simp add: s builder_fatal_def)
    next
      case (Some n2)
      then have "n2 \<in> set cts" by (auto simp: read_at_def split: if_splits)
      then have "n2 < number a" using assms(3) by simp
      then show ?thesis
        unfolding s Some option.case
        using visit_pair_outcome [OF that, of n1 n2] that by simp
    qed
  qed
  then show ?thesis
    unfolding scanCell_def Some option.case
    by (intro for_each_outcome assms(1))
qed

lemma findNeighborON1_outcome:
  "outcome_is (recorded a) (builder_fatal a) (findNeighborON1 a)"
proof -
  have main: "outcome_is (recorded a) (builder_fatal a)
      (for_each (\<lambda>n1. for_each (\<lambda>k. for_each (\<lambda>j. for_each (\<lambda>i.
           scanCell cc ccs cts n1 (nbc n1 k j i)) is) js) ks) [0 ..< number a] (cleared a))"
    if "scatterCells cellOf ccs [0 ..< number a] (cc0, replicate (number a) 0) = Some (cc, cts)"
    for cellOf ccs cc0 cc cts nbc and "is" js ks :: "int list"
  proof (intro for_each_outcome recorded_cleared)
    fix n1 k j i a1
    assume n1: "n1 \<in> set [0 ..< number a]" and r: "recorded a a1"
    then have lt: "n1 < number a" by simp
    have "\<forall>c \<in> set (replicate (number a) 0). c < number a" using lt by simp
    from scatterCells_bound [OF that this] have "\<forall>c \<in> set cts. c < number a" by simp
    from scanCell_outcome [OF r lt this]
    show "outcome_is (recorded a) (builder_fatal a) (scanCell cc ccs cts n1 (nbc n1 k j i) a1)" .
  qed
  show ?thesis
    unfolding findNeighborON1_def Let_def cleared_def [symmetric]
    by (auto split: option.splits simp: builder_fatal_def intro!: main)
qed

section \<open>The two builders on small boxes\<close>

lemma sqrt_390625: "sqrt 390625 = 625"
  by (rule real_sqrt_unique) simp_all

lemma sqrt_625: "sqrt 625 = 25"
  by (rule real_sqrt_unique) simp_all

lemma getThickness_cube:
  "getThickness (two_atoms 25 c r p q) = (25, 25, 25)"
  "getThickness (two_atoms 5 c r p q) = (5, 5, 5)"
  by (simp_all add: getThickness_def getArea_def getDet_def toInt_def two_atoms_def cube_def
        Let_def sqrt_390625 sqrt_625)

lemma read_at_Nil: "read_at [] i = None"
  by (auto simp: read_at_def)

lemma countCells_empty: "countCells cellOf (n # ns) [] = None"
  by (simp add: read_at_Nil)

lemma findNeighborON1_small_box:
  "findNeighborON1 (two_atoms 5 1000 1 1 3) = Inl (OutOfBounds, two_atoms 5 1000 1 1 3)"
proof -
  have n: "[0 ..< number (two_atoms 5 1000 1 1 3)] = [0, 1]" "cutoffNeighbor (two_atoms 5 1000 1 1 3) = 10"
    by (simp_all add: two_atoms_def upt_small)
  show ?thesis
    unfolding findNeighborON1_def Let_def getThickness_cube n
    by (simp add: read_at_Nil)
qed

lemma findNeighborON2_small_box:
  "findNeighborON2 (two_atoms 5 1000 1 1 3) = Inr (paired (two_atoms 5 1000 1 1 3))"
  by (simp add: findNeighborON2_two visit_pair_def micDistanceSquare_def applyMic_def
        applyMicOne_def record_pair_def push_neighbor_def Let_def fill_zero_def paired_def
        two_atoms_def cube_def fun_eq_iff)


lemma findCell_25:
  "findCell (cube 25) (25, 25, 25) (5, 1, 1) (1 / 10) (2, 2, 2) = (0, 0, 0, 0)"
  "findCell (cube 25) (25, 25, 25) (12, 1, 1) (1 / 10) (2, 2, 2) = (1, 0, 0, 1)"
  by (simp_all add: findCell_def wrapCell_def cube_def Let_def)

lemma replicate_small:
  "replicate 8 v = [v, v, v, v, v, v, v, v]" "replicate 2 v = [v, v]"
  by (simp_all add: numeral_eq_Suc)

lemma upt_1_8: "[1 ..< 8] = [1, 2, 3, 4, 5, 6, 7]"
  by (simp add: upt_conv_Cons)

lemma countCells_two:
  assumes "cellOf 0 = 0" "cellOf (Suc 0) = 1"
  shows "countCells cellOf [0, Suc 0] (replicate 8 0) = Some [Suc 0, Suc 0, 0, 0, 0, 0, 0, 0]"
  using assms by (simp add: read_at_def replicate_small)

lemma sumCells_two: "sumCells [Suc 0, Suc 0, 0, 0, 0, 0, 0, 0] = [0, Suc 0, 2, 2, 2, 2, 2, 2]"
  by (simp add: sumCells_def upt_1_8 replicate_small)

lemma scatterCells_two:
  assumes "cellOf 0 = 0" "cellOf (Suc 0) = 1"
  shows "scatterCells cellOf [0, Suc 0, 2, 2, 2, 2, 2, 2] [0, Suc 0] (replicate 8 0, replicate 2 0)
           = Some ([Suc 0, Suc 0, 0, 0, 0, 0, 0, 0], [0, Suc 0])"
  using assms by (simp add: read_at_def replicate_small)

lemma scanCell_two:
  assumes "0 \<le> nb" "nb < 8"
  shows "scanCell [Suc 0, Suc 0, 0, 0, 0, 0, 0, 0] [0, Suc 0, 2, 2, 2, 2, 2, 2] [0, Suc 0] n1 nb a
           = (if nb = 1 \<and> n1 = 0 then visit_pair 0 (Suc 0) a else Inr a)"
proof -
  from assms have "nb = 0 \<or> nb = 1 \<or> nb = 2 \<or> nb = 3 \<or> nb = 4 \<or> nb = 5 \<or> nb = 6 \<or> nb = 7"
    by arith
  then show ?thesis
    by (elim disjE) (simp_all add: scanCell_def read_at_def upt_small split: sum.splits)
qed


lemma scan_block_0:
  "for_each (\<lambda>k. for_each (\<lambda>j. for_each (\<lambda>i.
       scanCell [Suc 0, Suc 0, 0, 0, 0, 0, 0, 0] [0, Suc 0, 2, 2, 2, 2, 2, 2] [0, Suc 0] 0
         (neighborCellOf (0, 0, 0, 0) (2, 2, 2, 8) k j i)) [- 1, 0, 1]) [- 1, 0, 1]) [- 1, 0, 1] a
   = (case visit_pair 0 (Suc 0) a of Inl e \<Rightarrow> Inl e | Inr a1 \<Rightarrow> visit_pair 0 (Suc 0) a1)"
  by (simp add: neighborCellOf_def scanCell_two split: sum.splits)

lemma scan_block_1:
  "for_each (\<lambda>k. for_each (\<lambda>j. for_each (\<lambda>i.
       scanCell [Suc 0, Suc 0, 0, 0, 0, 0, 0, 0] [0, Suc 0, 2, 2, 2, 2, 2, 2] [0, Suc 0] (Suc 0)
         (neighborCellOf (1, 0, 0, 1) (2, 2, 2, 8) k j i)) [- 1, 0, 1]) [- 1, 0, 1]) [- 1, 0, 1] a
   = Inr a"
  by (simp add: neighborCellOf_def scanCell_two)

lemma findNeighborON1_cells:
  assumes t: "getThickness a = (t0, t1, t2)"
    and nc: "\<lfloor>t0 * (1 / cutoffNeighbor a)\<rfloor> = nc0" "\<lfloor>t1 * (1 / cutoffNeighbor a)\<rfloor> = nc1"
      "\<lfloor>t2 * (1 / cutoffNeighbor a)\<rfloor> = nc2"
    and cell: "\<And>n. findCell (box a) (t0, t1, t2) (x a n, y a n, z a n) (1 / cutoffNeighbor a)
                  (nc0, nc1, nc2) = cell n"
    and cnt: "countCells (\<lambda>n. snd (snd (snd (cell n)))) [0 ..< number a]
                (replicate (nat (nc0 * nc1 * nc2)) 0) = Some counted"
    and sc: "scatterCells (\<lambda>n. snd (snd (snd (cell n)))) (sumCells counted) [0 ..< number a]
                (replicate (nat (nc0 * nc1 * nc2)) 0, replicate (number a) 0) = Some (cc, cts)"
  shows "findNeighborON1 a
           = for_each (\<lambda>n1. for_each (\<lambda>k. for_each (\<lambda>j. for_each (\<lambda>i.
                 scanCell cc (sumCells counted) cts n1
                   (neighborCellOf (cell n1) (nc0, nc1, nc2, nc0 * nc1 * nc2) k j i))
               [- 1, 0, 1]) [- 1, 0, 1]) [- 1, 0, 1]) [0 ..< number a] (cleared a)"
  unfolding findNeighborON1_def Let_def t fst_conv snd_conv nc cell cnt option.case sc prod.case
    cleared_def [symmetric]
  by (rule refl)


lemma for_each_two:
  "for_each body [u, v] a = (case body u a of Inl e \<Rightarrow> Inl e | Inr a1 \<Rightarrow> body v a1)"
  by (simp split: sum.splits)

lemma findNeighborON1_two_cells:
  "findNeighborON1 (two_atoms 25 1000 1 5 12)
     = record_all [(0, 1), (0, 1)] (cleared (two_atoms 25 1000 1 5 12))"
proof -
  define D where "D = two_atoms 25 1000 1 5 12"
  define cell :: "nat \<Rightarrow> int \<times> int \<times> int \<times> int"
    where "cell = (\<lambda>n. if n = 0 then (0, 0, 0, 0) else (1, 0, 0, 1))"
  have f: "cutoffNeighbor D = 10" "box D = cube 25" "number D = 2"
    "\<And>n. x D n = (if n = 0 then 5 else 12)" "\<And>n. y D n = 1" "\<And>n. z D n = 1"
    by (simp_all add: D_def two_atoms_def)
  have u: "[0 ..< number D] = [0, Suc 0]" by (simp add: f upt_small)
  have t: "getThickness D = (25, 25, 25)" by (simp add: D_def getThickness_cube)
  have nc: "\<lfloor>25 * (1 / cutoffNeighbor D)\<rfloor> = 2" by (simp add: f)
  have c: "findCell (box D) (25, 25, 25) (x D n, y D n, z D n) (1 / cutoffNeighbor D) (2, 2, 2)
             = cell n" for n
    by (simp add: f findCell_25 cell_def)
  have cv: "cell 0 = (0, 0, 0, 0)" "cell (Suc 0) = (1, 0, 0, 1)"
    by (simp_all add: cell_def)
  have cnt: "countCells (\<lambda>n. snd (snd (snd (cell n)))) [0 ..< number D]
                (replicate (nat (2 * 2 * 2)) 0) = Some [Suc 0, Suc 0, 0, 0, 0, 0, 0, 0]"
    unfolding u using countCells_two [of "\<lambda>n. snd (snd (snd (cell n)))"] by (simp add: cv)
  have sc: "scatterCells (\<lambda>n. snd (snd (snd (cell n)))) (sumCells [Suc 0, Suc 0, 0, 0, 0, 0, 0, 0])
                [0 ..< number D] (replicate (nat (2 * 2 * 2)) 0, replicate (number D) 0)
              = Some ([Suc 0, Suc 0, 0, 0, 0, 0, 0, 0], [0, Suc 0])"
    unfolding u sumCells_two using scatterCells_two [of "\<lambda>n. snd (snd (snd (cell n)))"]
    by (simp add: cv f)
  have w: "within_cutoff D 0 (Suc 0)"
    by (simp add: within_cutoff_def micDistanceSquare_def applyMic_def applyMicOne_def
          D_def two_atoms_def cube_def)
  have e8: "(2::int) * 2 * 2 = 8" by simp
  have "findNeighborON1 D
      = (case (case visit_pair 0 (Suc 0) (cleared D) of Inl e \<Rightarrow> Inl e
               | Inr a1 \<Rightarrow> visit_pair 0 (Suc 0) a1) of Inl e \<Rightarrow> Inl e | Inr a2 \<Rightarrow> Inr a2)"
    unfolding findNeighborON1_cells [OF t nc nc nc c cnt sc] sumCells_two u for_each_two cv e8
      scan_block_0 scan_block_1 ..
  also have "\<dots> = for_each (\<lambda>p. visit_pair (fst p) (snd p)) [(0, Suc 0), (0, Suc 0)] (cleared D)"
    unfolding for_each_two fst_conv snd_conv by (simp split: sum.splits)
  also have "\<dots> = record_all [(0, Suc 0), (0, Suc 0)] (cleared D)"
    using visit_all [OF cleared_fields(5) [of D], where ps = "[(0, Suc 0), (0, Suc 0)]"] w
    by simp
  finally show ?thesis unfolding D_def by simp
qed


lemma all_pairs_2: "all_pairs 2 = [(0, Suc 0)]"
  by (simp add: all_pairs_def upt_small)

lemma record_all_two_atoms:
  assumes "number a = 2" and "within_cutoff a 0 (Suc 0)" and "length ps \<le> MN a"
    and "set ps \<subseteq> {(0, Suc 0)}"
  shows "\<exists>a'. record_all ps (cleared a) = Inr a' \<and> neighbours a' 0 = partners ps 0
             \<and> NN a' 0 = length (partners ps 0)"
proof -
  have t: "\<forall>p \<in> set ps. true_pair a p" using assms by (auto simp: true_pair_def)
  have l: "length (partners ps k) \<le> length ps" for k
    by (induction ps) auto
  have "\<exists>a'. record_all ps (cleared a) = Inr a'"
  proof (rule record_all_succeeds)
    show "\<forall>p \<in> set ps. fst p \<noteq> snd p" using assms(4) by auto
    show "\<forall>k. NN (cleared a) k + length (partners ps k) \<le> MN (cleared a)
            \<or> k \<notin> fst ` set ps \<union> snd ` set ps"
    proof
      fix k
      show "NN (cleared a) k + length (partners ps k) \<le> MN (cleared a)
            \<or> k \<notin> fst ` set ps \<union> snd ` set ps"
      proof (cases "k < 2")
        case True
        then show ?thesis using l [of k] assms(1,3) by (simp add: cleared_fields)
      next
        case False
        then show ?thesis using assms(4) by auto
      qed
    qed
  qed
  then obtain a' where a': "record_all ps (cleared a) = Inr a'" ..
  from recorded_state(1,2) [OF a' t, of 0] assms(1) a' show ?thesis by simp
qed

text \<open>
  Claim C3 fails on the code. In a cubic box of side 25 with cutoff 10 the cell grid has
  two cells per axis, so the offsets \<open>-1\<close> and \<open>+1\<close> lead to the same neighbouring
  cell. For two atoms 7 apart in adjacent cells, \<open>findNeighborON1\<close> records the pair
  twice: the list of atom 0 is \<open>[1, 1]\<close>, although atom 1 is its only neighbour and
  \<open>findNeighborON2\<close> records it once.
\<close>

theorem findNeighborON1_duplicates:
  "true_neighbours (two_atoms 25 1000 1 5 12) 0 = {1}
   \<and> (\<exists>a'. findNeighborON1 (two_atoms 25 1000 1 5 12) = Inr a' \<and> neighbours a' 0 = [1, 1]
          \<and> NN a' 0 = 2 \<and> \<not> distinct (neighbours a' 0))
   \<and> (\<exists>a'. findNeighborON2 (two_atoms 25 1000 1 5 12) = Inr a' \<and> neighbours a' 0 = [1])"
proof -
  define D where "D = two_atoms 25 1000 1 5 12"
  have n: "number D = 2" "MN D = 1000" by (simp_all add: D_def two_atoms_def)
  have w: "within_cutoff D 0 (Suc 0)"
    by (simp add: within_cutoff_def micDistanceSquare_def applyMic_def applyMicOne_def
          D_def two_atoms_def cube_def)
  have 1: "true_neighbours D 0 = {1}"
    using w by (auto simp: true_neighbours_def n less_2_cases_iff)
  from record_all_two_atoms [OF n(1) w, of "[(0, Suc 0), (0, Suc 0)]"]
  have 2: "\<exists>a'. findNeighborON1 D = Inr a' \<and> neighbours a' 0 = [1, 1] \<and> NN a' 0 = 2
          \<and> \<not> distinct (neighbours a' 0)"
    unfolding D_def findNeighborON1_two_cells by (auto simp: n [unfolded D_def])
  from record_all_two_atoms [OF n(1) w, of "[(0, Suc 0)]"]
  have 3: "\<exists>a'. findNeighborON2 D = Inr a' \<and> neighbours a' 0 = [1]"
    unfolding findNeighborON2_eq n all_pairs_2 using w by (auto simp: n)
  from 1 2 3 show ?thesis unfolding D_def by blast
qed

lemma getThickness_cube_any:
  assumes "0 < l" and "box a = cube l"
  shows "getThickness a = (real_of_int \<lfloor>l * l * l\<rfloor> / (l * l), real_of_int \<lfloor>l * l * l\<rfloor> / (l * l),
           real_of_int \<lfloor>l * l * l\<rfloor> / (l * l))"
proof -
  have s: "sqrt (l * l * (l * l)) = l * l"
    using assms(1) by (intro real_sqrt_unique) (simp_all add: power2_eq_square)
  have "getArea (0, l, 0) (0, 0, l) = l * l" "getArea (0, 0, l) (l, 0, 0) = l * l"
    "getArea (l, 0, 0) (0, l, 0) = l * l"
    using s by (simp_all add: getArea_def)
  moreover have "0 \<le> l * l * l" using assms(1) by simp
  then have "\<bar>toInt (l * l * l)\<bar> = \<lfloor>l * l * l\<rfloor>" by (simp add: toInt_def)
  ultimately show ?thesis
    by (simp add: getThickness_def getDet_cube assms(2) cube_def Let_def)
qed

lemma thickness_below_side:
  assumes "0 < l"
  shows "0 \<le> real_of_int \<lfloor>l * l * l\<rfloor> / (l * l)" and "real_of_int \<lfloor>l * l * l\<rfloor> / (l * l) \<le> l"
proof -
  have "0 \<le> l * l * l" using assms by simp
  then have "0 \<le> \<lfloor>l * l * l\<rfloor>" by simp
  then show "0 \<le> real_of_int \<lfloor>l * l * l\<rfloor> / (l * l)" using assms by simp
  have "real_of_int \<lfloor>l * l * l\<rfloor> \<le> l * (l * l)" by (simp add: mult.assoc)
  then show "real_of_int \<lfloor>l * l * l\<rfloor> / (l * l) \<le> l"
    using assms by (simp add: pos_divide_le_eq)
qed

lemma findNeighborON1_no_cell:
  assumes n: "0 < number a"
    and t: "getThickness a = (t0, t1, t2)"
    and c: "\<lfloor>t0 * (1 / cutoffNeighbor a)\<rfloor> * \<lfloor>t1 * (1 / cutoffNeighbor a)\<rfloor>
              * \<lfloor>t2 * (1 / cutoffNeighbor a)\<rfloor> \<le> 0"
  shows "findNeighborON1 a = Inl (OutOfBounds, a)"
proof -
  have u: "[0 ..< number a] = 0 # [1 ..< number a]" using n by (simp add: upt_conv_Cons)
  have r: "replicate (nat (\<lfloor>t0 * (1 / cutoffNeighbor a)\<rfloor> * \<lfloor>t1 * (1 / cutoffNeighbor a)\<rfloor>
              * \<lfloor>t2 * (1 / cutoffNeighbor a)\<rfloor>)) (0::nat) = []"
    using c by simp
  show ?thesis
    unfolding findNeighborON1_def Let_def t u fst_conv snd_conv r
    by (simp add: read_at_Nil)
qed

lemma applyPbc_fcc_cell:
  assumes "0 < l"
  shows "applyPbc (fcc_cell l\<lparr> numUpdates := 1 \<rparr>) = fcc_cell l\<lparr> numUpdates := 1 \<rparr>"
proof -
  have u: "[0 ..< 4] = [0, 1, 2, 3::nat]" by (simp add: upt_conv_Cons)
  show ?thesis
    using assms
    by (simp add: applyPbc_def fcc_cell_def u applyPbc_atom_def applyPbcOne_def cube_def
          Let_def fun_eq_iff)
qed

lemma checkIfNeedUpdate_fcc_cell:
  assumes "1 < l"
  shows "checkIfNeedUpdate (fcc_cell l)"
proof -
  have "1 * 1 < l * l" using assms by (intro mult_strict_mono) simp_all
  then have "l * l > 1" by simp
  then have "displacementSquare (fcc_cell l) 1 > 0.25"
    by (simp add: displacementSquare_def fcc_cell_def)
  moreover have "1 < number (fcc_cell l)" by (simp add: fcc_cell_def)
  ultimately show ?thesis unfolding checkIfNeedUpdate_iff by blast
qed

lemma true_neighbours_fcc_cell:
  assumes "0 < l" "l < 10" "i < 4"
  shows "true_neighbours (fcc_cell l\<lparr> numUpdates := 1 \<rparr>) i = {0, 1, 2, 3} - {i}"
proof -
  let ?a = "fcc_cell l\<lparr> numUpdates := 1 \<rparr>"
  have "l * l < 10 * 10" using assms by (intro mult_strict_mono) simp_all
  then have l2: "l * l < 100" by simp
  have h: "l / 2 * (l / 2) = l * l / 4" by simp
  have w: "within_cutoff ?a p q" if "p < 4" "q < 4" for p q
  proof -
    have "p = 0 \<or> p = 1 \<or> p = 2 \<or> p = 3" "q = 0 \<or> q = 1 \<or> q = 2 \<or> q = 3"
      using that by arith+
    then show ?thesis
      using assms(1) l2
      by (auto simp: within_cutoff_def micDistanceSquare_def applyMic_def applyMicOne_def
            fcc_cell_def cube_def Let_def h)
  qed
  have "j < 4 \<longleftrightarrow> j = 0 \<or> j = 1 \<or> j = 2 \<or> j = 3" for j :: nat by arith
  moreover have "number ?a = 4" by (simp add: fcc_cell_def)
  ultimately show ?thesis
    using w assms(3) unfolding true_neighbours_def by auto
qed

lemma updateXyz0_lists:
  "NN (updateXyz0 a) = NN a \<and> NL (updateXyz0 a) = NL a \<and> MN (updateXyz0 a) = MN a"
proof -
  have "NN (fold (\<lambda>n a. a\<lparr> x0 := (x0 a)(n := x a n), y0 := (y0 a)(n := y a n),
                     z0 := (z0 a)(n := z a n) \<rparr>) ns a) = NN a
      \<and> NL (fold (\<lambda>n a. a\<lparr> x0 := (x0 a)(n := x a n), y0 := (y0 a)(n := y a n),
                     z0 := (z0 a)(n := z a n) \<rparr>) ns a) = NL a
      \<and> MN (fold (\<lambda>n a. a\<lparr> x0 := (x0 a)(n := x a n), y0 := (y0 a)(n := y a n),
                     z0 := (z0 a)(n := z a n) \<rparr>) ns a) = MN a" for ns
    by (induction ns arbitrary: a) simp_all
  then show ?thesis by (simp add: updateXyz0_def)
qed

lemma neighbours_updateXyz0: "neighbours (updateXyz0 a) i = neighbours a i"
  by (simp add: neighbours_def updateXyz0_lists)

lemma findNeighbor_fcc_cell:
  assumes "1 < l" and "l < 10"
  shows "findNeighbor True (fcc_cell l) = Inl (OutOfBounds, fcc_cell l\<lparr> numUpdates := 1 \<rparr>)"
    and "\<exists>a'. findNeighbor False (fcc_cell l) = Inr a'
           \<and> (\<forall>i < 4. set (neighbours a' i) = {0, 1, 2, 3} - {i} \<and> distinct (neighbours a' i))"
proof -
  let ?a = "fcc_cell l\<lparr> numUpdates := 1 \<rparr>"
  have l: "0 < l" using assms(1) by simp
  have a: "(fcc_cell l)\<lparr> numUpdates := numUpdates (fcc_cell l) + 1 \<rparr> = ?a"
    by (simp add: fcc_cell_def)
  have f: "number ?a = 4" "MN ?a = 1000" "cutoffNeighbor ?a = 10" "box ?a = cube l"
    by (simp_all add: fcc_cell_def)
  define t where "t = real_of_int \<lfloor>l * l * l\<rfloor> / (l * l)"
  have "0 \<le> t" "t < 10" using thickness_below_side [OF l] assms(2) by (simp_all add: t_def)
  then have "\<lfloor>t * (1 / 10)\<rfloor> = 0" by (simp add: floor_eq_iff)
  then have "\<lfloor>t * (1 / cutoffNeighbor ?a)\<rfloor> * \<lfloor>t * (1 / cutoffNeighbor ?a)\<rfloor>
              * \<lfloor>t * (1 / cutoffNeighbor ?a)\<rfloor> \<le> 0"
    unfolding f by simp
  moreover have "0 < number ?a" unfolding f by simp
  ultimately have 1: "findNeighborON1 ?a = Inl (OutOfBounds, ?a)"
    using findNeighborON1_no_cell [OF _ getThickness_cube_any [OF l f(4), folded t_def]] by blast
  show "findNeighbor True (fcc_cell l) = Inl (OutOfBounds, ?a)"
    unfolding findNeighbor_def Let_def a applyPbc_fcc_cell [OF l]
    using checkIfNeedUpdate_fcc_cell [OF assms(1)] 1 by simp
  have "\<forall>i < number ?a. card (true_neighbours ?a i) \<le> MN ?a"
  proof (intro allI impI)
    fix i assume "i < number ?a"
    then have "i < 4" unfolding f .
    then have "true_neighbours ?a i = {0, 1, 2, 3} - {i}"
      by (rule true_neighbours_fcc_cell [OF l assms(2)])
    moreover have "card ({0, 1, 2, 3::nat} - {i}) \<le> card {0, 1, 2, 3::nat}"
      by (intro card_mono) auto
    ultimately show "card (true_neighbours ?a i) \<le> MN ?a" unfolding f by simp
  qed
  from findNeighborON2_succeeds [OF this] obtain a3 where a3: "findNeighborON2 ?a = Inr a3" ..
  have "set (neighbours a3 i) = {0, 1, 2, 3} - {i} \<and> distinct (neighbours a3 i)" if "i < 4" for i
  proof -
    have "i < number ?a" unfolding f using that .
    from findNeighborON2_Inr(1,2) [OF a3 this] true_neighbours_fcc_cell [OF l assms(2) that]
    show ?thesis by simp
  qed
  moreover have "findNeighbor False (fcc_cell l) = Inr (updateXyz0 a3)"
    unfolding findNeighbor_def Let_def a applyPbc_fcc_cell [OF l]
    using checkIfNeedUpdate_fcc_cell [OF assms(1)] a3 by simp
  ultimately show "\<exists>a'. findNeighbor False (fcc_cell l) = Inr a'
           \<and> (\<forall>i < 4. set (neighbours a' i) = {0, 1, 2, 3} - {i} \<and> distinct (neighbours a' i))"
    by (simp add: neighbours_updateXyz0)
qed

text \<open>
  Claim C2 fails on the code. A run with \<open>numCells = 1\<close> starts from one lattice cell
  of side 5.385, smaller than the cutoff 10, so the cell grid has zero cells: at the first
  step \<open>findNeighbor\<close> compiled with \<open>USE_ON1\<close> indexes an empty vector in the first
  \<open>++cellCount[cell[3]]\<close>, while without the macro it gives every atom the three others
  as neighbours. The same happens with two atoms in a cubic box of side 5.
\<close>

theorem builders_differ_in_small_box:
  "findNeighbor True (fcc_cell 5.385) = Inl (OutOfBounds, fcc_cell 5.385\<lparr> numUpdates := 1 \<rparr>)
   \<and> (\<exists>a'. findNeighbor False (fcc_cell 5.385) = Inr a'
          \<and> set (neighbours a' 0) = {1, 2, 3} \<and> set (neighbours a' 1) = {0, 2, 3}
          \<and> set (neighbours a' 2) = {0, 1, 3} \<and> set (neighbours a' 3) = {0, 1, 2})
   \<and> findNeighborON2 (two_atoms 5 1000 1 1 3) = Inr (paired (two_atoms 5 1000 1 1 3))
   \<and> neighbours (paired (two_atoms 5 1000 1 1 3)) 0 = [1]
   \<and> neighbours (paired (two_atoms 5 1000 1 1 3)) 1 = [0]
   \<and> findNeighborON1 (two_atoms 5 1000 1 1 3) = Inl (OutOfBounds, two_atoms 5 1000 1 1 3)"
proof -
  define l :: real where "l = 5.385"
  have l: "1 < l" "l < 10" by (simp_all add: l_def)
  from findNeighbor_fcc_cell(2) [OF l] obtain a' where a': "findNeighbor False (fcc_cell l) = Inr a'"
    and n: "\<forall>i < 4. set (neighbours a' i) = {0, 1, 2, 3} - {i} \<and> distinct (neighbours a' i)"
    by blast
  have s: "{0, 1, 2, 3} - {0} = {1, 2, 3::nat}" "{0, 1, 2, 3} - {1} = {0, 2, 3::nat}"
    "{0, 1, 2, 3} - {2} = {0, 1, 3::nat}" "{0, 1, 2, 3} - {3} = {0, 1, 2::nat}"
    by auto
  have "set (neighbours a' 0) = {1, 2, 3}" "set (neighbours a' 1) = {0, 2, 3}"
    "set (neighbours a' 2) = {0, 1, 3}" "set (neighbours a' 3) = {0, 1, 2}"
    using n s by simp_all
  with a' have 2: "\<exists>a'. findNeighbor False (fcc_cell l) = Inr a'
          \<and> set (neighbours a' 0) = {1, 2, 3} \<and> set (neighbours a' 1) = {0, 2, 3}
          \<and> set (neighbours a' 2) = {0, 1, 3} \<and> set (neighbours a' 3) = {0, 1, 2}"
    by (intro exI [of _ a']) simp
  have 3: "neighbours (paired (two_atoms 5 1000 1 1 3)) 0 = [1]"
    "neighbours (paired (two_atoms 5 1000 1 1 3)) 1 = [0]"
    by (simp_all add: neighbours_def paired_def two_atoms_def upt_small)
  show ?thesis
    using findNeighbor_fcc_cell(1) [OF l] 2 3 findNeighborON2_small_box findNeighborON1_small_box
    unfolding l_def by (intro conjI)
qed

section \<open>The capacity of the neighbour list\<close>

lemma record_pair_full:
  assumes "i \<noteq> j" and "NN a i \<le> MN a" and "NN a j \<le> MN a"
    and "NN a i = MN a \<or> NN a j = MN a"
  shows "\<exists>k a'. record_pair i j a = Inl (NeighborOverflow k (MN a), a') \<and> (k = i \<or> k = j)
           \<and> NN a k = MN a"
  using assms by (auto simp: record_pair_def Let_def push_neighbor_fields)

lemma builder_outcome:
  "outcome_is (recorded a) (builder_fatal a) (if u then findNeighborON1 a else findNeighborON2 a)"
proof (cases u)
  case True
  then show ?thesis by (simp add: findNeighborON1_outcome)
next
  case False
  have "outcome_is (recorded a) (builder_fatal a) (findNeighborON2 a)"
  proof (cases "findNeighborON2 a")
    case (Inl ea)
    then show ?thesis using findNeighborON2_Inl [OF Inl] by (simp add: builder_fatal_def)
  next
    case (Inr a')
    then have "recorded a a'"
      unfolding findNeighborON2_eq recorded_def using true_pairs_ON2 by blast
    then show ?thesis by (simp add: Inr)
  qed
  with False show ?thesis by simp
qed












section \<open>Properties of the Tersoff force kernel\<close>

lemma fold_nested:
  "fold (\<lambda>u s. fold (f u) (ws u) s) vs s0
     = fold (\<lambda>p. f (fst p) (snd p)) (concat (map (\<lambda>u. map (Pair u) (ws u)) vs)) s0"
  by (induction vs arbitrary: s0) (simp_all add: fold_map comp_def)

lemma find_force_tersoff_slots:
  "find_force_tersoff atom L b bp out
     = fold (\<lambda>s. find_force_tersoff_slot atom L b bp (fst s) (snd s)) (slots L)
         \<lparr> fx' = zeroReal (N' L) (fx' out), fy' = zeroReal (N' L) (fy' out),
           fz' = zeroReal (N' L) (fz' out), prop' = zeroReal 7 (prop' out) \<rparr>"
  unfolding find_force_tersoff_def Let_def slots_def by (rule fold_nested)

lemma slot_effect:
  "fx' (find_force_tersoff_slot atom L b bp (fst s) (snd s) out) n
     = fx' out n + (if partner L s < fst s then 0 else fst (pair_force atom L b bp s n))"
  "fy' (find_force_tersoff_slot atom L b bp (fst s) (snd s) out) n
     = fy' out n + (if partner L s < fst s then 0 else fst (snd (pair_force atom L b bp s n)))"
  "fz' (find_force_tersoff_slot atom L b bp (fst s) (snd s) out) n
     = fz' out n + (if partner L s < fst s then 0 else snd (snd (pair_force atom L b bp s n)))"
  "prop' (find_force_tersoff_slot atom L b bp (fst s) (snd s) out) 0
     = prop' out 0 + (if partner L s < fst s then 0 else pair_energy atom L b s)"
  unfolding find_force_tersoff_slot_def pair_force_def pair_energy_def partner_def Let_def
  by (auto split: prod.splits)

lemma fold_slots:
  "fx' (fold (\<lambda>s. find_force_tersoff_slot atom L b bp (fst s) (snd s)) ss out) n
     = fx' out n + (\<Sum>s \<leftarrow> filter (\<lambda>s. \<not> partner L s < fst s) ss. fst (pair_force atom L b bp s n))"
  "fy' (fold (\<lambda>s. find_force_tersoff_slot atom L b bp (fst s) (snd s)) ss out) n
     = fy' out n + (\<Sum>s \<leftarrow> filter (\<lambda>s. \<not> partner L s < fst s) ss. fst (snd (pair_force atom L b bp s n)))"
  "fz' (fold (\<lambda>s. find_force_tersoff_slot atom L b bp (fst s) (snd s)) ss out) n
     = fz' out n + (\<Sum>s \<leftarrow> filter (\<lambda>s. \<not> partner L s < fst s) ss. snd (snd (pair_force atom L b bp s n)))"
  "prop' (fold (\<lambda>s. find_force_tersoff_slot atom L b bp (fst s) (snd s)) ss out) 0
     = prop' out 0 + (\<Sum>s \<leftarrow> filter (\<lambda>s. \<not> partner L s < fst s) ss. pair_energy atom L b s)"
  by (induction ss arbitrary: out) (simp_all add: slot_effect)


lemma distinct_concat_Pair:
  "distinct us \<Longrightarrow> (\<forall>u \<in> set us. distinct (ws u))
     \<Longrightarrow> distinct (concat (map (\<lambda>u. map (Pair u) (ws u)) us))"
  by (induction us) (auto simp: distinct_map inj_on_def)

lemma pairs_of_slots:
  "map (\<lambda>s. (fst s, partner L s)) (slots L)
     = concat (map (\<lambda>n1. map (Pair n1) (neighbours' L n1)) [0 ..< N' L])"
  by (simp add: slots_def neighbours'_def partner_def map_concat comp_def)

lemma pairs_of_visited:
  "map (\<lambda>s. (fst s, partner L s)) (visited L)
     = filter (\<lambda>p. \<not> snd p < fst p) (concat (map (\<lambda>n1. map (Pair n1) (neighbours' L n1)) [0 ..< N' L]))"
  unfolding visited_def pairs_of_slots [symmetric] filter_map by (simp add: comp_def)

lemma visited_pairs:
  assumes "symmetric_list L"
  shows "distinct (map (\<lambda>s. (fst s, partner L s)) (visited L))"
    and "set (map (\<lambda>s. (fst s, partner L s)) (visited L))
           = {(n1, n2). n1 < n2 \<and> n2 < N' L \<and> n2 \<in> set (neighbours' L n1)}"
proof -
  have d: "\<forall>u \<in> set [0 ..< N' L]. distinct (neighbours' L u)"
    using assms by (simp add: symmetric_list_def)
  show "distinct (map (\<lambda>s. (fst s, partner L s)) (visited L))"
    unfolding pairs_of_visited by (intro distinct_filter distinct_concat_Pair d) simp
  show "set (map (\<lambda>s. (fst s, partner L s)) (visited L))
           = {(n1, n2). n1 < n2 \<and> n2 < N' L \<and> n2 \<in> set (neighbours' L n1)}"
  proof -
    have 1: "(n1, n2) \<in> set (map (\<lambda>s. (fst s, partner L s)) (visited L))
          \<longleftrightarrow> n1 < N' L \<and> n2 \<in> set (neighbours' L n1) \<and> \<not> n2 < n1" for n1 n2
      unfolding pairs_of_visited by auto
    have 2: "n1 < N' L \<and> n2 \<in> set (neighbours' L n1) \<and> \<not> n2 < n1
          \<longleftrightarrow> n1 < n2 \<and> n2 < N' L \<and> n2 \<in> set (neighbours' L n1)" for n1 n2
    proof
      assume a: "n1 < N' L \<and> n2 \<in> set (neighbours' L n1) \<and> \<not> n2 < n1"
      with assms have "n2 < N' L \<and> n2 \<noteq> n1" unfolding symmetric_list_def by blast
      with a show "n1 < n2 \<and> n2 < N' L \<and> n2 \<in> set (neighbours' L n1)" by simp
    next
      assume "n1 < n2 \<and> n2 < N' L \<and> n2 \<in> set (neighbours' L n1)"
      then show "n1 < N' L \<and> n2 \<in> set (neighbours' L n1) \<and> \<not> n2 < n1" by simp
    qed
    show ?thesis
    proof (rule set_eqI)
      fix p :: "nat \<times> nat"
      obtain n1 n2 where p: "p = (n1, n2)" by (cases p)
      show "p \<in> set (map (\<lambda>s. (fst s, partner L s)) (visited L))
          \<longleftrightarrow> p \<in> {(n1, n2). n1 < n2 \<and> n2 < N' L \<and> n2 \<in> set (neighbours' L n1)}"
        unfolding p using 1 [of n1 n2] 2 [of n1 n2] by simp
    qed
  qed
qed

text \<open>
  Claim C4. With a symmetric list without duplicates, the slots \<open>find_force_tersoff\<close>
  does not skip are, as pairs \<open>(n1, n2)\<close>, exactly the neighbour pairs with \<open>n1 < n2\<close>,
  each once. Afterwards the force on an atom is the sum over these visits of what the
  visit contributes: the net pair force \<open>f12 - f21\<close> added for \<open>n1\<close> and subtracted
  for \<open>n2\<close>, nothing else; and \<open>prop[0]\<close> is the sum over the visits of
  \<open>(p12 + p21) * 0.5\<close>.
\<close>

theorem find_force_tersoff_once_per_pair:
  assumes "symmetric_list L"
  shows "distinct (map (\<lambda>s. (fst s, partner L s)) (visited L))
       \<and> set (map (\<lambda>s. (fst s, partner L s)) (visited L))
           = {(n1, n2). n1 < n2 \<and> n2 < N' L \<and> n2 \<in> set (neighbours' L n1)}
       \<and> (\<forall>n < N' L.
             fx' (find_force_tersoff atom L b bp out) n
               = (\<Sum>s \<leftarrow> visited L. fst (pair_force atom L b bp s n))
           \<and> fy' (find_force_tersoff atom L b bp out) n
               = (\<Sum>s \<leftarrow> visited L. fst (snd (pair_force atom L b bp s n)))
           \<and> fz' (find_force_tersoff atom L b bp out) n
               = (\<Sum>s \<leftarrow> visited L. snd (snd (pair_force atom L b bp s n))))
       \<and> prop' (find_force_tersoff atom L b bp out) 0
           = (\<Sum>s \<leftarrow> visited L. pair_energy atom L b s)
       \<and> (\<forall>s \<in> set (visited L).
             pair_force atom L b bp s (fst s) = f_net atom L b bp (fst s) (snd s)
           \<and> pair_force atom L b bp s (partner L s)
               = (case f_net atom L b bp (fst s) (snd s) of (u, v, w) \<Rightarrow> (- u, - v, - w))
           \<and> (\<forall>n. n \<noteq> fst s \<and> n \<noteq> partner L s \<longrightarrow> pair_force atom L b bp s n = (0, 0, 0)))"
proof (intro conjI)
  show "distinct (map (\<lambda>s. (fst s, partner L s)) (visited L))"
    by (rule visited_pairs(1) [OF assms])
  show "set (map (\<lambda>s. (fst s, partner L s)) (visited L))
           = {(n1, n2). n1 < n2 \<and> n2 < N' L \<and> n2 \<in> set (neighbours' L n1)}"
    by (rule visited_pairs(2) [OF assms])
  show "\<forall>n < N' L.
             fx' (find_force_tersoff atom L b bp out) n
               = (\<Sum>s \<leftarrow> visited L. fst (pair_force atom L b bp s n))
           \<and> fy' (find_force_tersoff atom L b bp out) n
               = (\<Sum>s \<leftarrow> visited L. fst (snd (pair_force atom L b bp s n)))
           \<and> fz' (find_force_tersoff atom L b bp out) n
               = (\<Sum>s \<leftarrow> visited L. snd (snd (pair_force atom L b bp s n)))"
    by (simp add: find_force_tersoff_slots fold_slots visited_def zeroReal_def)
  show "prop' (find_force_tersoff atom L b bp out) 0
           = (\<Sum>s \<leftarrow> visited L. pair_energy atom L b s)"
    by (simp add: find_force_tersoff_slots fold_slots visited_def zeroReal_def)
  show "\<forall>s \<in> set (visited L).
             pair_force atom L b bp s (fst s) = f_net atom L b bp (fst s) (snd s)
           \<and> pair_force atom L b bp s (partner L s)
               = (case f_net atom L b bp (fst s) (snd s) of (u, v, w) \<Rightarrow> (- u, - v, - w))
           \<and> (\<forall>n. n \<noteq> fst s \<and> n \<noteq> partner L s \<longrightarrow> pair_force atom L b bp s n = (0, 0, 0))"
  proof
    fix s assume "s \<in> set (visited L)"
    then have "(fst s, partner L s) \<in> set (map (\<lambda>s. (fst s, partner L s)) (visited L))"
      by (rule imageI [of s "set (visited L)" "\<lambda>s. (fst s, partner L s)", folded set_map])
    then have "fst s \<noteq> partner L s" unfolding visited_pairs(2) [OF assms] by auto
    then show "pair_force atom L b bp s (fst s) = f_net atom L b bp (fst s) (snd s)
           \<and> pair_force atom L b bp s (partner L s)
               = (case f_net atom L b bp (fst s) (snd s) of (u, v, w) \<Rightarrow> (- u, - v, - w))
           \<and> (\<forall>n. n \<noteq> fst s \<and> n \<noteq> partner L s \<longrightarrow> pair_force atom L b bp s n = (0, 0, 0))"
      by (auto simp: pair_force_def split: prod.splits)
  qed
qed


theorem find_force_tersoff_once_per_pair_witness:
  "symmetric_list dimer
   \<and> visited dimer = [(0, 0)] \<and> partner dimer (0, 0) = 1
   \<and> fx' (find_force_tersoff (two_atoms 15 1 1 1 2.5) dimer (\<lambda>s. 1) (\<lambda>s. 0) stale) 0
       = fst (pair_force (two_atoms 15 1 1 1 2.5) dimer (\<lambda>s. 1) (\<lambda>s. 0) (0, 0) 0)
   \<and> fx' (find_force_tersoff (two_atoms 15 1 1 1 2.5) dimer (\<lambda>s. 1) (\<lambda>s. 0) stale) 1
       = fst (pair_force (two_atoms 15 1 1 1 2.5) dimer (\<lambda>s. 1) (\<lambda>s. 0) (0, 0) 1)
   \<and> pair_force (two_atoms 15 1 1 1 2.5) dimer (\<lambda>s. 1) (\<lambda>s. 0) (0, 0) 0
       = f_net (two_atoms 15 1 1 1 2.5) dimer (\<lambda>s. 1) (\<lambda>s. 0) 0 0
   \<and> prop' (find_force_tersoff (two_atoms 15 1 1 1 2.5) dimer (\<lambda>s. 1) (\<lambda>s. 0) stale) 0
       = pair_energy (two_atoms 15 1 1 1 2.5) dimer (\<lambda>s. 1) (0, 0)"
proof -
  define A where "A = two_atoms 15 1 1 1 2.5"
  define b :: "nat \<Rightarrow> real" where "b = (\<lambda>s. 1)"
  define bp :: "nat \<Rightarrow> real" where "bp = (\<lambda>s. 0)"
  have nb: "neighbours' dimer n = [if n = 0 then 1 else 0]" for n
    by (simp add: neighbours'_def dimer_def upt_small)
  have h: "symmetric_list dimer"
    unfolding symmetric_list_def nb by (simp add: dimer_def less_2_cases_iff)
  have v: "visited dimer = [(0, 0)]" and p: "partner dimer (0, 0) = 1"
    by (simp_all add: visited_def slots_def partner_def dimer_def upt_small)
  have n: "0 < N' dimer" "1 < N' dimer" by (simp_all add: dimer_def)
  note t = find_force_tersoff_once_per_pair [OF h, of A b bp stale]
  from t n have 1: "fx' (find_force_tersoff A dimer b bp stale) 0 = fst (pair_force A dimer b bp (0, 0) 0)"
    "fx' (find_force_tersoff A dimer b bp stale) 1 = fst (pair_force A dimer b bp (0, 0) 1)"
    "prop' (find_force_tersoff A dimer b bp stale) 0 = pair_energy A dimer b (0, 0)"
    unfolding v by simp_all
  from t have 2: "pair_force A dimer b bp (0, 0) 0 = f_net A dimer b bp 0 0"
    unfolding v by simp
  from h v p 1 2 show ?thesis unfolding A_def b_def bp_def by blast
qed

end
